theory Spec2Isabelle
  imports Main "HOL-Library.AList"
begin

section \<open>Layer tree and visibility resolver (psd-store)\<close>

text \<open>
  The flattened layer sequence of \<^verbatim>\<open>lib/types.ts\<close>. Only the fields read by the code
  verified here are kept: \<^verbatim>\<open>id\<close>, \<^verbatim>\<open>visible\<close> and \<^verbatim>\<open>type\<close>. The native parser
  emits a \<^verbatim>\<open>groupEnd\<close> marker that carries the id of the group it closes and no
  \<^verbatim>\<open>visible\<close> field; an absent flag is falsy and is modelled as \<open>False\<close>.
\<close>

datatype LayerType = Layer | Group | GroupEnd

record LayerInfo =
  layer_id :: int
  visible :: bool
  ltype :: LayerType

text \<open>
  A JavaScript \<^verbatim>\<open>Map\<close> is an association list maintained with \<open>AList.update\<close>
  (\<^verbatim>\<open>set\<close>), \<open>AList.delete\<close> (\<^verbatim>\<open>delete\<close>) and \<open>map_of\<close> (\<^verbatim>\<open>has\<close>/\<^verbatim>\<open>get\<close>).
\<close>

type_synonym Overrides = "(int \<times> bool) list"

text \<open>\<^verbatim>\<open>layers.findIndex(l => l.id === layerId)\<close>, with \<open>None\<close> for \<^verbatim>\<open>-1\<close>.\<close>

fun findIndex :: "('a \<Rightarrow> bool) \<Rightarrow> 'a list \<Rightarrow> nat option" where
  "findIndex P [] = None"
| "findIndex P (x # xs) =
     (if P x then Some 0 else map_option Suc (findIndex P xs))"

text \<open>
  The body of the backward loop of \<^verbatim>\<open>getAncestorGroupIds\<close>: the list argument holds
  \<^verbatim>\<open>layers[layerIndex - 1]\<close>, \<^verbatim>\<open>layers[layerIndex - 2]\<close>, ..., \<^verbatim>\<open>layers[0]\<close>.
\<close>

fun scanBackward :: "LayerInfo list \<Rightarrow> nat \<Rightarrow> int list" where
  "scanBackward [] depth = []"
| "scanBackward (l # ls) depth =
     (if ltype l = GroupEnd then scanBackward ls (depth + 1)
      else if ltype l = Group then
        (if depth = 0 then layer_id l # scanBackward ls depth
         else scanBackward ls (depth - 1))
      else scanBackward ls depth)"

definition getAncestorGroupIds :: "LayerInfo list \<Rightarrow> nat \<Rightarrow> int list" where
  "getAncestorGroupIds layers layerIndex = scanBackward (rev (take layerIndex layers)) 0"

text \<open>\<^verbatim>\<open>overrides.has(id) ? overrides.get(id)! : layer.visible\<close>\<close>

definition ownVisibility :: "Overrides \<Rightarrow> LayerInfo \<Rightarrow> bool" where
  "ownVisibility overrides l =
     (case map_of overrides (layer_id l) of Some b \<Rightarrow> b | None \<Rightarrow> visible l)"

text \<open>The loop over \<^verbatim>\<open>ancestorIds\<close> in \<^verbatim>\<open>computeEffectiveVisibility\<close>.\<close>

fun ancestorsVisible :: "LayerInfo list \<Rightarrow> Overrides \<Rightarrow> int list \<Rightarrow> bool" where
  "ancestorsVisible layers overrides [] = True"
| "ancestorsVisible layers overrides (ancestorId # rest) =
     (case find (\<lambda>l. layer_id l = ancestorId) layers of
        None \<Rightarrow> ancestorsVisible layers overrides rest
      | Some ancestor \<Rightarrow>
          (if \<not> ownVisibility overrides ancestor then False
           else ancestorsVisible layers overrides rest))"

definition computeEffectiveVisibility :: "LayerInfo list \<Rightarrow> int \<Rightarrow> Overrides \<Rightarrow> bool" where
  "computeEffectiveVisibility layers layerId overrides =
     (case findIndex (\<lambda>l. layer_id l = layerId) layers of
        None \<Rightarrow> False
      | Some layerIndex \<Rightarrow>
          (if \<not> ownVisibility overrides (layers ! layerIndex) then False
           else ancestorsVisible layers overrides (getAncestorGroupIds layers layerIndex)))"




section \<open>JavaScript values and string helpers\<close>

text \<open>
  Strings are lists of code units below 256. An optional property is an \<open>option\<close>:
  \<open>None\<close> is \<^verbatim>\<open>undefined\<close>. \<open>truthy\<close> is the truth value JavaScript gives an
  optional string, \<open>orElse\<close> is \<^verbatim>\<open>a || d\<close> and \<open>nullish\<close> is \<^verbatim>\<open>a ?? d\<close>.
\<close>

definition truthy :: "string option \<Rightarrow> bool" where
  "truthy s = (case s of None \<Rightarrow> False | Some t \<Rightarrow> t \<noteq> [])"

definition orElse :: "string option \<Rightarrow> string \<Rightarrow> string" where
  "orElse s d = (case s of None \<Rightarrow> d | Some t \<Rightarrow> if t = [] then d else t)"

definition nullish :: "string option \<Rightarrow> string \<Rightarrow> string" where
  "nullish s d = (case s of None \<Rightarrow> d | Some t \<Rightarrow> t)"

text \<open>White space and line terminators of ECMAScript among the code units below 256.\<close>

definition isWhiteSpace :: "char \<Rightarrow> bool" where
  "isWhiteSpace c =
     (c \<in> set [CHR 0x09, CHR 0x0A, CHR 0x0B, CHR 0x0C, CHR 0x0D, CHR 0x20, CHR 0xA0])"

definition trim :: "string \<Rightarrow> string" where
  "trim s = rev (dropWhile isWhiteSpace (rev (dropWhile isWhiteSpace s)))"

text \<open>\<^verbatim>\<open>s.split(',')\<close>: the empty string splits into one empty piece.\<close>

fun splitComma :: "string \<Rightarrow> string list" where
  "splitComma [] = [[]]"
| "splitComma (c # cs) =
     (if c = CHR '','' then [] # splitComma cs
      else (case splitComma cs of
              [] \<Rightarrow> [[c]]
            | piece # pieces \<Rightarrow> (c # piece) # pieces))"

text \<open>\<^verbatim>\<open>s.charAt(i)\<close>: the empty string when \<open>i\<close> is out of range.\<close>

definition charAt :: "string \<Rightarrow> nat \<Rightarrow> string" where
  "charAt s i = take 1 (drop i s)"

text \<open>\<^verbatim>\<open>s.replace(pat, rep)\<close> with a string pattern: the first occurrence only.\<close>

fun replaceFirst :: "string \<Rightarrow> string \<Rightarrow> string \<Rightarrow> string" where
  "replaceFirst pat rep [] = (if pat = [] then rep else [])"
| "replaceFirst pat rep (c # cs) =
     (if take (length pat) (c # cs) = pat then rep @ drop (length pat) (c # cs)
      else c # replaceFirst pat rep cs)"

definition digitChar :: "nat \<Rightarrow> char" where
  "digitChar d = char_of (48 + d)"

fun decimal :: "nat \<Rightarrow> string" where
  "decimal n = (if n < 10 then [digitChar n] else decimal (n div 10) @ [digitChar (n mod 10)])"

text \<open>\<^verbatim>\<open>n.toString().padStart(2, '0')\<close>\<close>

definition pad2 :: "nat \<Rightarrow> string" where
  "pad2 n = (if length (decimal n) < 2 then CHR ''0'' # decimal n else decimal n)"

section \<open>Interaction configuration (lib/types.ts)\<close>

text \<open>
  \<^verbatim>\<open>delay\<close> is an undeclared property (type \<^verbatim>\<open>unknown\<close>): it can be absent, a number
  or anything else. Numbers are integers here; fractional seconds are outside the model.
  \<^verbatim>\<open>showOn\<close> and \<^verbatim>\<open>triggerOn\<close> are \<open>Some\<close> exactly when \<^verbatim>\<open>Array.isArray\<close> holds.
\<close>

datatype DelayField = DelayAbsent | DelayNumber int | DelayOther

record InteractionElement =
  el_layerId :: int
  el_type :: string
  el_action :: "string option"
  el_target :: "string option"
  el_name :: "string option"
  el_value :: "string option"
  el_format :: "string option"
  el_showOn :: "string list option"
  el_targets :: "(string \<times> string) list option"
  el_group :: "string option"
  el_delay :: DelayField
  el_triggerOn :: "string list option"

record InteractionConfig =
  elements :: "InteractionElement list"
  screens :: "string list"
  initialScreen :: string

section \<open>The stores, the browser's timers and the traces\<close>

text \<open>
  A callback registered with \<^verbatim>\<open>window.setTimeout\<close> or \<^verbatim>\<open>window.setInterval\<close>: the
  closure of \<^verbatim>\<open>startScreenTimers\<close> over its element, the delayed \<^verbatim>\<open>startClocks\<close> of
  \<^verbatim>\<open>setConfig\<close>, and the clock tick of \<^verbatim>\<open>startClocks\<close> over its element.
\<close>

datatype TimerTask =
    ScreenTimerTask InteractionElement
  | StartClocksTask
  | ClockTickTask InteractionElement

type_synonym Timer = "nat \<times> int \<times> TimerTask"

text \<open>The four \<^verbatim>\<open>console.log\<close> calls of the interaction store.\<close>

datatype LogEntry =
    LogSetConfig "string list" string nat
  | LogNavigateToScreen string
  | LogExecuteAction string "string option" "string option" "string option"
  | LogStartScreenTimer "string option" "string option" int string

text \<open>Calls made to the render collaborator \<^verbatim>\<open>qtRenderer\<close>.\<close>

datatype Request =
    SetLayerText int string
  | RenderComposite "int list" "int list"

text \<open>
  One record holds the state of the interaction store (\<open>config\<close> to
  \<open>dynamicTexts\<close>), of the psd store (\<open>psd\<close>, \<open>visibilityOverrides\<close>), the browser's
  table of pending timers with the next handle it will hand out, and three traces:
  the console, the arguments of the calls to \<^verbatim>\<open>setMultipleVisibility\<close> (\<open>batches\<close>) and
  the calls to the render collaborator (\<open>requests\<close>). The collaborator's answers are
  outside the model: every promise chain is followed along its resolved path and runs
  to its end before the next event.
\<close>

record World =
  config :: "InteractionConfig option"
  currentScreen :: "string option"
  elementScreenMap :: "(int \<times> string option) list"
  sliderValues :: "(int \<times> int) list"
  clockTimers :: "(int \<times> nat) list"
  screenTimerIds :: "nat list"
  activePopups :: "string set"
  selectedHighlights :: "(string \<times> string) list"
  dynamicTexts :: "(int \<times> string) list"
  psd :: "LayerInfo list option"
  visibilityOverrides :: Overrides
  timers :: "Timer list"
  nextTimerId :: nat
  console :: "LogEntry list"
  batches :: "Overrides list"
  requests :: "Request list"

definition initialWorld :: World where
  "initialWorld =
     \<lparr>config = None, currentScreen = None, elementScreenMap = [], sliderValues = [],
      clockTimers = [], screenTimerIds = [], activePopups = {}, selectedHighlights = [],
      dynamicTexts = [], psd = None, visibilityOverrides = [], timers = [],
      nextTimerId = 1, console = [], batches = [], requests = []\<rparr>"

section \<open>The psd store\<close>

text \<open>
  The loop shared by \<^verbatim>\<open>toggleLayerVisibility\<close>, \<^verbatim>\<open>setMultipleVisibility\<close> and
  \<^verbatim>\<open>recomposite\<close> that fills \<^verbatim>\<open>hiddenLayerIds\<close> and \<^verbatim>\<open>shownLayerIds\<close>.
\<close>

definition shownLayerIds :: "LayerInfo list \<Rightarrow> Overrides \<Rightarrow> int list" where
  "shownLayerIds layers overrides =
     map layer_id (filter (\<lambda>l. ltype l \<noteq> GroupEnd
        \<and> computeEffectiveVisibility layers (layer_id l) overrides \<and> \<not> visible l) layers)"

definition hiddenLayerIds :: "LayerInfo list \<Rightarrow> Overrides \<Rightarrow> int list" where
  "hiddenLayerIds layers overrides =
     map layer_id (filter (\<lambda>l. ltype l \<noteq> GroupEnd
        \<and> \<not> computeEffectiveVisibility layers (layer_id l) overrides \<and> visible l) layers)"

definition renderRequest :: "LayerInfo list \<Rightarrow> Overrides \<Rightarrow> Request" where
  "renderRequest layers overrides =
     RenderComposite (hiddenLayerIds layers overrides) (shownLayerIds layers overrides)"

text \<open>\<^verbatim>\<open>for (const [layerId, visible] of overrides) newOverrides.set(layerId, visible)\<close>\<close>

definition mergeOverrides :: "Overrides \<Rightarrow> Overrides \<Rightarrow> Overrides" where
  "mergeOverrides batch current = fold (\<lambda>(layerId, vis). AList.update layerId vis) batch current"

definition setMultipleVisibility :: "Overrides \<Rightarrow> World \<Rightarrow> World" where
  "setMultipleVisibility overrides w =
     (let w1 = w\<lparr>batches := batches w @ [overrides]\<rparr> in
      case psd w1 of
        None \<Rightarrow> w1
      | Some layers \<Rightarrow>
          (let newOverrides = mergeOverrides overrides (visibilityOverrides w1) in
           w1\<lparr>visibilityOverrides := newOverrides,
              requests := requests w1 @ [renderRequest layers newOverrides]\<rparr>))"

definition recomposite :: "World \<Rightarrow> World" where
  "recomposite w =
     (case psd w of
        None \<Rightarrow> w
      | Some layers \<Rightarrow>
          w\<lparr>requests := requests w @ [renderRequest layers (visibilityOverrides w)]\<rparr>)"

definition toggleLayerVisibility :: "int \<Rightarrow> World \<Rightarrow> World" where
  "toggleLayerVisibility layerId w =
     (case psd w of
        None \<Rightarrow> w
      | Some layers \<Rightarrow>
          (case find (\<lambda>l. layer_id l = layerId) layers of
             None \<Rightarrow> w
           | Some layer \<Rightarrow>
               (let newVisible = \<not> ownVisibility (visibilityOverrides w) layer;
                    newOverrides = AList.update layerId newVisible (visibilityOverrides w)
                in w\<lparr>visibilityOverrides := newOverrides,
                     requests := requests w @ [renderRequest layers newOverrides]\<rparr>)))"

text \<open>
  \<^verbatim>\<open>loadPsd\<close> with the parsed layer sequence as its argument (parsing and the bounds of
  groups touch no field kept here), and \<^verbatim>\<open>clear\<close> of the psd store.
\<close>

definition loadPsd :: "LayerInfo list \<Rightarrow> World \<Rightarrow> World" where
  "loadPsd layers w = w\<lparr>psd := Some layers, requests := requests w @ [RenderComposite [] []]\<rparr>"

definition clearPsd :: "World \<Rightarrow> World" where
  "clearPsd w = w\<lparr>psd := None, visibilityOverrides := []\<rparr>"

section \<open>The interaction store\<close>

subsection \<open>Screen visibility\<close>

definition hasLayer :: "LayerInfo list \<Rightarrow> int \<Rightarrow> bool" where
  "hasLayer layers i = (find (\<lambda>l. layer_id l = i) layers \<noteq> None)"

text \<open>The four passes of \<^verbatim>\<open>applyScreenVisibility\<close> over the \<^verbatim>\<open>overrides\<close> map.\<close>

definition screenPass :: "InteractionConfig \<Rightarrow> LayerInfo list \<Rightarrow> string \<Rightarrow> Overrides \<Rightarrow> Overrides" where
  "screenPass cfg layers screenName =
     fold (\<lambda>screen ov.
             if \<not> hasLayer layers (el_layerId screen) then ov
             else AList.update (el_layerId screen) (el_name screen = Some screenName) ov)
          (filter (\<lambda>e. el_type e = ''screen'') (elements cfg))"

definition showOnPass :: "InteractionConfig \<Rightarrow> LayerInfo list \<Rightarrow> string \<Rightarrow> Overrides \<Rightarrow> Overrides" where
  "showOnPass cfg layers screenName =
     fold (\<lambda>elem ov.
             case el_showOn elem of
               None \<Rightarrow> ov
             | Some showOn \<Rightarrow>
                 if \<not> hasLayer layers (el_layerId elem) then ov
                 else AList.update (el_layerId elem) (screenName \<in> set showOn) ov)
          (filter (\<lambda>e. el_showOn e \<noteq> None) (elements cfg))"

definition selectedNameOf :: "(string \<times> string) list \<Rightarrow> InteractionElement \<Rightarrow> string option" where
  "selectedNameOf selected elem =
     (case el_group elem of
        None \<Rightarrow> None
      | Some g \<Rightarrow> if g = [] then None else map_of selected g)"

definition highlightPass :: "InteractionConfig \<Rightarrow> (string \<times> string) list \<Rightarrow> Overrides \<Rightarrow> Overrides" where
  "highlightPass cfg selected =
     fold (\<lambda>elem ov.
             if el_type elem \<noteq> ''highlight'' then ov
             else AList.update (el_layerId elem) (el_name elem = selectedNameOf selected elem) ov)
          (elements cfg)"

definition popupPass :: "InteractionConfig \<Rightarrow> string set \<Rightarrow> Overrides \<Rightarrow> Overrides" where
  "popupPass cfg popups =
     fold (\<lambda>elem ov.
             if el_type elem \<noteq> ''popup'' then ov
             else AList.update (el_layerId elem)
                    (case el_name elem of None \<Rightarrow> False | Some n \<Rightarrow> n \<in> popups) ov)
          (elements cfg)"

definition screenVisibilityBatch ::
  "InteractionConfig \<Rightarrow> LayerInfo list \<Rightarrow> string \<Rightarrow> string set \<Rightarrow> (string \<times> string) list \<Rightarrow> Overrides" where
  "screenVisibilityBatch cfg layers screenName popups selected =
     popupPass cfg popups
       (highlightPass cfg selected
         (showOnPass cfg layers screenName
           (screenPass cfg layers screenName [])))"

definition applyScreenVisibility ::
  "InteractionConfig \<Rightarrow> string \<Rightarrow> string set \<Rightarrow> (string \<times> string) list \<Rightarrow> World \<Rightarrow> World" where
  "applyScreenVisibility cfg screenName popups selected w =
     (case psd w of
        None \<Rightarrow> w
      | Some layers \<Rightarrow>
          setMultipleVisibility (screenVisibilityBatch cfg layers screenName popups selected) w)"

subsection \<open>Timers\<close>

text \<open>
  \<^verbatim>\<open>window.setTimeout\<close> and \<^verbatim>\<open>window.setInterval\<close> hand out handles from one counter and
  never hand one out twice; \<^verbatim>\<open>clearTimeout\<close> and \<^verbatim>\<open>clearInterval\<close> drop the entry
  with the handle, if any.
\<close>

definition setTimer :: "TimerTask \<Rightarrow> int \<Rightarrow> World \<Rightarrow> nat \<times> World" where
  "setTimer task delay w =
     (nextTimerId w,
      w\<lparr>timers := timers w @ [(nextTimerId w, delay, task)], nextTimerId := Suc (nextTimerId w)\<rparr>)"

definition clearTimer :: "nat \<Rightarrow> World \<Rightarrow> World" where
  "clearTimer h w = w\<lparr>timers := filter (\<lambda>t. fst t \<noteq> h) (timers w)\<rparr>"

definition stopScreenTimers :: "nat list \<Rightarrow> World \<Rightarrow> World" where
  "stopScreenTimers ids w = fold clearTimer ids w"

text \<open>\<^verbatim>\<open>(typeof elem.delay === 'number' ? elem.delay : 5) * 1000\<close>\<close>

definition timerDelay :: "InteractionElement \<Rightarrow> int" where
  "timerDelay elem = (case el_delay elem of DelayNumber d \<Rightarrow> d | _ \<Rightarrow> 5) * 1000"

definition triggersOn :: "InteractionElement \<Rightarrow> string \<Rightarrow> bool" where
  "triggersOn elem screenName =
     (case el_triggerOn elem of None \<Rightarrow> False | Some t \<Rightarrow> screenName \<in> set t)"

fun startScreenTimersLoop ::
  "InteractionElement list \<Rightarrow> string \<Rightarrow> nat list \<Rightarrow> World \<Rightarrow> nat list \<times> World" where
  "startScreenTimersLoop [] screenName ids w = (ids, w)"
| "startScreenTimersLoop (elem # rest) screenName ids w =
     (if \<not> triggersOn elem screenName then startScreenTimersLoop rest screenName ids w
      else
        (let delay = timerDelay elem;
             w1 = w\<lparr>console := console w @
                    [LogStartScreenTimer (el_action elem) (el_target elem) delay screenName]\<rparr>;
             (h, w2) = setTimer (ScreenTimerTask elem) delay w1
         in startScreenTimersLoop rest screenName (ids @ [h]) w2))"

definition startScreenTimers :: "InteractionConfig \<Rightarrow> string \<Rightarrow> World \<Rightarrow> nat list \<times> World" where
  "startScreenTimers cfg screenName w =
     startScreenTimersLoop (filter (\<lambda>e. el_type e = ''timer'') (elements cfg)) screenName [] w"

subsection \<open>Store actions\<close>

definition navigateToScreen :: "string \<Rightarrow> World \<Rightarrow> World" where
  "navigateToScreen screenName w =
     (case config w of
        None \<Rightarrow> w
      | Some cfg \<Rightarrow>
          (let w1 = w\<lparr>console := console w @ [LogNavigateToScreen screenName]\<rparr>;
               w2 = stopScreenTimers (screenTimerIds w1) w1;
               w3 = w2\<lparr>currentScreen := Some screenName, activePopups := {}\<rparr>;
               w4 = applyScreenVisibility cfg screenName {} (selectedHighlights w3) w3;
               (ids, w5) = startScreenTimers cfg screenName w4
           in w5\<lparr>screenTimerIds := ids\<rparr>))"

definition setSliderValue :: "int \<Rightarrow> int \<Rightarrow> World \<Rightarrow> World" where
  "setSliderValue layerId v w = w\<lparr>sliderValues := AList.update layerId v (sliderValues w)\<rparr>"

definition setDynamicText :: "int \<Rightarrow> string \<Rightarrow> World \<Rightarrow> World" where
  "setDynamicText layerId text w = w\<lparr>dynamicTexts := AList.update layerId text (dynamicTexts w)\<rparr>"

definition pushLayerText :: "int \<Rightarrow> string \<Rightarrow> World \<Rightarrow> World" where
  "pushLayerText layerId text w = w\<lparr>requests := requests w @ [SetLayerText layerId text]\<rparr>"

fun startClocksLoop ::
  "InteractionElement list \<Rightarrow> (int \<times> nat) list \<Rightarrow> World \<Rightarrow> (int \<times> nat) list \<times> World" where
  "startClocksLoop [] newTimers w = (newTimers, w)"
| "startClocksLoop (elem # rest) newTimers w =
     (let (timerId, w1) = setTimer (ClockTickTask elem) 1000 w
      in startClocksLoop rest (AList.update (el_layerId elem) timerId newTimers) w1)"

definition startClocks :: "World \<Rightarrow> World" where
  "startClocks w =
     (case config w of
        None \<Rightarrow> w
      | Some cfg \<Rightarrow>
          (let (newTimers, w1) =
                 startClocksLoop (filter (\<lambda>e. el_type e = ''clock'') (elements cfg)) [] w
           in w1\<lparr>clockTimers := newTimers\<rparr>))"

definition stopClocks :: "World \<Rightarrow> World" where
  "stopClocks w = (fold (\<lambda>(layerId, timerId). clearTimer timerId) (clockTimers w) w)\<lparr>clockTimers := []\<rparr>"

definition formatTime :: "nat \<Rightarrow> nat \<Rightarrow> nat \<Rightarrow> string \<Rightarrow> string" where
  "formatTime hours minutes seconds fmt =
     replaceFirst ''ss'' (pad2 seconds)
       (replaceFirst ''mm'' (pad2 minutes)
         (replaceFirst ''HH'' (pad2 hours) fmt))"

text \<open>The interval callback of \<^verbatim>\<open>startClocks\<close>, with the wall-clock time as arguments.\<close>

definition clockTick :: "InteractionElement \<Rightarrow> nat \<Rightarrow> nat \<Rightarrow> nat \<Rightarrow> World \<Rightarrow> World" where
  "clockTick elem hours minutes seconds w =
     (let timeStr = formatTime hours minutes seconds (orElse (el_format elem) ''HH:mm:ss'');
          w1 = setDynamicText (el_layerId elem) timeStr w;
          w2 = pushLayerText (el_layerId elem) timeStr w1
      in recomposite w2)"

subsection \<open>setConfig\<close>

definition isDisplay :: "InteractionElement \<Rightarrow> bool" where
  "isDisplay e = (el_type e = ''display'' \<or> el_type e = ''dynamic_text'')"

definition initialTexts :: "InteractionConfig \<Rightarrow> (int \<times> string) list" where
  "initialTexts cfg =
     fold (\<lambda>elem m.
             if isDisplay elem then AList.update (el_layerId elem) (nullish (el_value elem) ''--'') m
             else m)
          (elements cfg) []"

fun findAncestorScreenLoop :: "LayerInfo list \<Rightarrow> nat \<Rightarrow> int set \<Rightarrow> int option" where
  "findAncestorScreenLoop [] depth screenLayerIds = None"
| "findAncestorScreenLoop (l # ls) depth screenLayerIds =
     (if ltype l = GroupEnd then findAncestorScreenLoop ls (depth + 1) screenLayerIds
      else if ltype l = Group then
        (if depth = 0 then
           (if layer_id l \<in> screenLayerIds then Some (layer_id l)
            else findAncestorScreenLoop ls depth screenLayerIds)
         else findAncestorScreenLoop ls (depth - 1) screenLayerIds)
      else findAncestorScreenLoop ls depth screenLayerIds)"

definition findAncestorScreen :: "LayerInfo list \<Rightarrow> int \<Rightarrow> int set \<Rightarrow> int option" where
  "findAncestorScreen layers layerId screenLayerIds =
     (case findIndex (\<lambda>l. layer_id l = layerId) layers of
        None \<Rightarrow> None
      | Some layerIndex \<Rightarrow>
          findAncestorScreenLoop (rev (take layerIndex layers)) 0 screenLayerIds)"

definition buildElementScreenMap :: "InteractionConfig \<Rightarrow> LayerInfo list \<Rightarrow> (int \<times> string option) list" where
  "buildElementScreenMap cfg layers =
     (let screenElements = filter (\<lambda>e. el_type e = ''screen'') (elements cfg);
          screenLayerIds = set (map el_layerId screenElements);
          screenNameById = fold (\<lambda>e. AList.update (el_layerId e) (el_name e)) screenElements []
      in fold (\<lambda>elem m.
                 if el_type elem = ''screen'' then m
                 else (case findAncestorScreen layers (el_layerId elem) screenLayerIds of
                         None \<Rightarrow> m
                       | Some screenId \<Rightarrow>
                           AList.update (el_layerId elem)
                             (case map_of screenNameById screenId of None \<Rightarrow> None | Some n \<Rightarrow> n) m))
              (elements cfg) [])"

text \<open>The text pushes of the asynchronous block of \<^verbatim>\<open>setConfig\<close>.\<close>

definition pushInitialTexts :: "InteractionConfig \<Rightarrow> World \<Rightarrow> World" where
  "pushInitialTexts cfg =
     fold (\<lambda>elem w.
             if isDisplay elem then pushLayerText (el_layerId elem) (nullish (el_value elem) ''--'') w
             else w)
          (elements cfg)"

definition setConfig :: "InteractionConfig \<Rightarrow> World \<Rightarrow> World" where
  "setConfig cfg w =
     (let w1 = stopClocks w;
          w2 = stopScreenTimers (screenTimerIds w1) w1;
          layers = (case psd w2 of None \<Rightarrow> [] | Some ls \<Rightarrow> ls);
          w3 = w2\<lparr>console := console w2 @
                 [LogSetConfig (screens cfg) (initialScreen cfg) (length (elements cfg))]\<rparr>;
          w4 = w3\<lparr>config := Some cfg,
                  currentScreen := Some (initialScreen cfg),
                  elementScreenMap := buildElementScreenMap cfg layers,
                  sliderValues := [],
                  activePopups := {},
                  selectedHighlights := [],
                  dynamicTexts := initialTexts cfg\<rparr>;
          w5 = pushInitialTexts cfg w4;
          w6 = applyScreenVisibility cfg (initialScreen cfg) {} [] w5;
          w7 = (if filter (\<lambda>e. el_type e = ''clock'') (elements cfg) \<noteq> []
                then snd (setTimer StartClocksTask 100 w6) else w6);
          (ids, w8) = startScreenTimers cfg (initialScreen cfg) w7
      in w8\<lparr>screenTimerIds := ids\<rparr>)"

definition clear :: "World \<Rightarrow> World" where
  "clear w =
     (let w1 = stopClocks w;
          w2 = stopScreenTimers (screenTimerIds w1) w1
      in w2\<lparr>config := None, currentScreen := None, elementScreenMap := [], sliderValues := [],
            clockTimers := [], screenTimerIds := [], activePopups := {},
            selectedHighlights := [], dynamicTexts := []\<rparr>)"

subsection \<open>executeAction\<close>

text \<open>
  \<^verbatim>\<open>(element.target || '').split(',').map(s => s.trim()).filter(Boolean)\<close> and the
  resolution of the names to display elements (names that resolve to nothing are dropped).
\<close>

definition targetNames :: "InteractionElement \<Rightarrow> string list" where
  "targetNames element =
     filter (\<lambda>s. s \<noteq> []) (map trim (splitComma (orElse (el_target element) [])))"

definition findDisplay :: "InteractionConfig \<Rightarrow> string \<Rightarrow> InteractionElement option" where
  "findDisplay cfg n = find (\<lambda>e. isDisplay e \<and> el_name e = Some n) (elements cfg)"

definition resolveDisplays :: "InteractionConfig \<Rightarrow> InteractionElement \<Rightarrow> InteractionElement list" where
  "resolveDisplays cfg element = List.map_filter (findDisplay cfg) (targetNames element)"

definition emptyValue :: string where
  "emptyValue = ''-''"

text \<open>The text a display holds as the digit logic reads it: \<^verbatim>\<open>dynamicTexts.get(id) || d\<close>.\<close>

definition readText :: "(int \<times> string) list \<Rightarrow> string \<Rightarrow> InteractionElement \<Rightarrow> string" where
  "readText texts d e = orElse (map_of texts (el_layerId e)) d"

definition nextSingle :: "string \<Rightarrow> string \<Rightarrow> string" where
  "nextSingle current digit =
     (let d1 = charAt current 0; d2 = charAt current 1 in
      if d1 = emptyValue \<and> d2 = emptyValue then emptyValue @ digit
      else if d1 = emptyValue \<and> d2 \<noteq> emptyValue then d2 @ digit
      else current)"

definition inputDigitSingle :: "InteractionElement \<Rightarrow> string \<Rightarrow> World \<Rightarrow> World" where
  "inputDigitSingle displayElem digit w =
     (let current = readText (dynamicTexts w) ''--'' displayElem;
          next = nextSingle current digit;
          w1 = setDynamicText (el_layerId displayElem) next w;
          w2 = pushLayerText (el_layerId displayElem) next w1
      in recomposite w2)"

definition pushDisplayTexts :: "InteractionElement list \<Rightarrow> World \<Rightarrow> World" where
  "pushDisplayTexts displayElems w =
     (let texts = dynamicTexts w in
      fold (\<lambda>d. pushLayerText (el_layerId d) (readText texts emptyValue d)) displayElems w)"

definition inputDigitMulti :: "InteractionElement list \<Rightarrow> string \<Rightarrow> World \<Rightarrow> World" where
  "inputDigitMulti displayElems digit w =
     (let texts = dynamicTexts w;
          allFilled = list_all (\<lambda>d. readText texts emptyValue d \<noteq> emptyValue) displayElems
      in if allFilled then w
         else
           (let currentValues = map (readText texts emptyValue) displayElems;
                w1 = fold (\<lambda>i. setDynamicText (el_layerId (displayElems ! i)) (currentValues ! (i + 1)))
                       [0 ..< length displayElems - 1] w;
                w2 = setDynamicText (el_layerId (displayElems ! (length displayElems - 1))) digit w1;
                w3 = pushDisplayTexts displayElems w2
            in recomposite w3))"

definition inputDigit :: "InteractionElement \<Rightarrow> string \<Rightarrow> World \<Rightarrow> World" where
  "inputDigit element digit w =
     (case config w of
        None \<Rightarrow> w
      | Some cfg \<Rightarrow>
          (let displayElems = resolveDisplays cfg element in
           if length displayElems = 0 then w
           else if length displayElems = 1 then inputDigitSingle (displayElems ! 0) digit w
           else inputDigitMulti displayElems digit w))"

definition findHighlight :: "InteractionConfig \<Rightarrow> string \<Rightarrow> InteractionElement option" where
  "findHighlight cfg n = find (\<lambda>e. el_type e = ''highlight'' \<and> el_name e = Some n) (elements cfg)"

definition groupHighlights :: "InteractionConfig \<Rightarrow> string \<Rightarrow> InteractionElement list" where
  "groupHighlights cfg g = filter (\<lambda>e. el_type e = ''highlight'' \<and> el_group e = Some g) (elements cfg)"

definition highlightOverrides :: "InteractionElement list \<Rightarrow> bool \<Rightarrow> string \<Rightarrow> Overrides" where
  "highlightOverrides members isToggleOff tgt =
     fold (\<lambda>h. AList.update (el_layerId h) (if isToggleOff then False else el_name h = Some tgt))
          members []"

definition highlightAction :: "InteractionElement \<Rightarrow> string \<Rightarrow> World \<Rightarrow> World" where
  "highlightAction element tgt w =
     (case config w of
        None \<Rightarrow> w
      | Some cfg \<Rightarrow>
          (case findHighlight cfg tgt of
             None \<Rightarrow> w
           | Some targetElem \<Rightarrow>
               (case el_group targetElem of
                  None \<Rightarrow> w
                | Some g \<Rightarrow>
                    if g = [] then w
                    else
                      (let currentSelected = map_of (selectedHighlights w) g;
                           isToggleOff = (el_action element = Some ''toggle_highlight''
                                          \<and> currentSelected = Some tgt);
                           overrides = highlightOverrides (groupHighlights cfg g) isToggleOff tgt;
                           newSelected = (if isToggleOff then AList.delete g (selectedHighlights w)
                                          else AList.update g tgt (selectedHighlights w));
                           w1 = w\<lparr>selectedHighlights := newSelected\<rparr>
                       in setMultipleVisibility overrides w1))))"

definition findPopup :: "InteractionConfig \<Rightarrow> string \<Rightarrow> InteractionElement option" where
  "findPopup cfg n = find (\<lambda>e. el_type e = ''popup'' \<and> el_name e = Some n) (elements cfg)"

definition showPopup :: "string \<Rightarrow> World \<Rightarrow> World" where
  "showPopup tgt w =
     (case config w of
        None \<Rightarrow> w
      | Some cfg \<Rightarrow>
          (case findPopup cfg tgt of
             None \<Rightarrow> w
           | Some popupElem \<Rightarrow>
               (let overrides = AList.update (el_layerId popupElem) True [];
                    w1 = w\<lparr>activePopups := insert tgt (activePopups w)\<rparr>
                in setMultipleVisibility overrides w1)))"

definition hidePopup :: "InteractionElement \<Rightarrow> World \<Rightarrow> World" where
  "hidePopup element w =
     (let w1 = w\<lparr>activePopups := {}\<rparr> in
      if truthy (el_target element) then navigateToScreen (orElse (el_target element) []) w1
      else (case config w of
              None \<Rightarrow> w1
            | Some cfg \<Rightarrow>
                (if truthy (currentScreen w1)
                 then applyScreenVisibility cfg (orElse (currentScreen w1) []) {}
                        (selectedHighlights w1) w1
                 else w1)))"

definition clearInput :: "InteractionElement \<Rightarrow> World \<Rightarrow> World" where
  "clearInput element w =
     (case config w of
        None \<Rightarrow> w
      | Some cfg \<Rightarrow>
          (let displayElems = resolveDisplays cfg element in
           if length displayElems = 0 then w
           else
             (let w1 = fold (\<lambda>d. setDynamicText (el_layerId d) (nullish (el_value d) ''-'')) displayElems w;
                  w2 = fold (\<lambda>d. pushLayerText (el_layerId d) (nullish (el_value d) ''-'')) displayElems w1
              in recomposite w2)))"

definition navigateConditional :: "(string \<times> string) list \<Rightarrow> World \<Rightarrow> World" where
  "navigateConditional tgts w =
     (if \<not> truthy (currentScreen w) then w
      else (let dest = map_of tgts (orElse (currentScreen w) []) in
            if truthy dest then navigateToScreen (orElse dest []) w else w))"

definition executeAction :: "InteractionElement \<Rightarrow> World \<Rightarrow> World" where
  "executeAction element w0 =
     (let w = w0\<lparr>console := console w0 @
                 [LogExecuteAction (el_type element) (el_action element)
                    (el_value element) (el_target element)]\<rparr>
      in
      if el_action element = Some ''navigate'' \<and> truthy (el_target element)
        then navigateToScreen (orElse (el_target element) []) w
      else if el_action element = Some ''navigate_conditional'' \<and> el_targets element \<noteq> None
        then (case el_targets element of None \<Rightarrow> w | Some tgts \<Rightarrow> navigateConditional tgts w)
      else if el_action element = Some ''input_digit'' \<and> el_value element \<noteq> None
        then inputDigit element (nullish (el_value element) []) w
      else if (el_action element = Some ''show_highlight''
               \<or> el_action element = Some ''toggle_highlight'') \<and> truthy (el_target element)
        then highlightAction element (orElse (el_target element) []) w
      else if el_action element = Some ''show_popup'' \<and> truthy (el_target element)
        then showPopup (orElse (el_target element) []) w
      else if el_action element = Some ''hide_popup''
              \<or> el_action element = Some ''navigate_from_popup''
        then hidePopup element w
      else if el_action element = Some ''clear_input''
        then clearInput element w
      else w)"

subsection \<open>Events\<close>

text \<open>
  The calls the user interface makes into the two stores, and the browser running the
  callback of a pending timer. A handle with no pending timer runs nothing: a cleared or
  already fired timeout never calls back.
\<close>

datatype Event =
    EvSetConfig InteractionConfig
  | EvNavigateToScreen string
  | EvSetSliderValue int int
  | EvSetDynamicText int string
  | EvStartClocks
  | EvStopClocks
  | EvExecuteAction InteractionElement
  | EvClear
  | EvTimerFires nat nat nat nat
  | EvLoadPsd "LayerInfo list"
  | EvToggleLayerVisibility int
  | EvClearPsd

definition screenTimerFires :: "InteractionElement \<Rightarrow> World \<Rightarrow> World" where
  "screenTimerFires elem w =
     (if el_action elem = Some ''navigate'' \<and> truthy (el_target elem)
      then navigateToScreen (orElse (el_target elem) []) w
      else w)"

definition timerFires :: "nat \<Rightarrow> nat \<Rightarrow> nat \<Rightarrow> nat \<Rightarrow> World \<Rightarrow> World" where
  "timerFires h hours minutes seconds w =
     (case find (\<lambda>t. fst t = h) (timers w) of
        None \<Rightarrow> w
      | Some (h', delay, task) \<Rightarrow>
          (case task of
             ScreenTimerTask elem \<Rightarrow> screenTimerFires elem (clearTimer h w)
           | StartClocksTask \<Rightarrow> startClocks (clearTimer h w)
           | ClockTickTask elem \<Rightarrow> clockTick elem hours minutes seconds w))"

fun step :: "Event \<Rightarrow> World \<Rightarrow> World" where
  "step (EvSetConfig cfg) w = setConfig cfg w"
| "step (EvNavigateToScreen screenName) w = navigateToScreen screenName w"
| "step (EvSetSliderValue layerId v) w = setSliderValue layerId v w"
| "step (EvSetDynamicText layerId text) w = setDynamicText layerId text w"
| "step EvStartClocks w = startClocks w"
| "step EvStopClocks w = stopClocks w"
| "step (EvExecuteAction element) w = executeAction element w"
| "step EvClear w = clear w"
| "step (EvTimerFires h hours minutes seconds) w = timerFires h hours minutes seconds w"
| "step (EvLoadPsd layers) w = loadPsd layers w"
| "step (EvToggleLayerVisibility layerId) w = toggleLayerVisibility layerId w"
| "step EvClearPsd w = clearPsd w"

definition run :: "Event list \<Rightarrow> World \<Rightarrow> World" where
  "run events w = fold step events w"

inductive reachable :: "World \<Rightarrow> bool" where
  reachable_initial: "reachable initialWorld"
| reachable_step: "reachable w \<Longrightarrow> reachable (step e w)"

section \<open>Example document and configuration\<close>

definition newElement :: "int \<Rightarrow> string \<Rightarrow> InteractionElement" where
  "newElement layerId type =
     \<lparr>el_layerId = layerId, el_type = type, el_action = None, el_target = None,
      el_name = None, el_value = None, el_format = None, el_showOn = None,
      el_targets = None, el_group = None, el_delay = DelayAbsent, el_triggerOn = None\<rparr>"

text \<open>Two screen folders: screen \<open>a\<close> holds two digit displays and two highlights, screen
  \<open>b\<close> a two-character display and a popup.\<close>

definition sampleLayers :: "LayerInfo list" where
  "sampleLayers =
     [\<lparr>layer_id = 10, visible = True, ltype = Group\<rparr>,
      \<lparr>layer_id = 31, visible = True, ltype = Layer\<rparr>,
      \<lparr>layer_id = 32, visible = True, ltype = Layer\<rparr>,
      \<lparr>layer_id = 41, visible = False, ltype = Layer\<rparr>,
      \<lparr>layer_id = 42, visible = False, ltype = Layer\<rparr>,
      \<lparr>layer_id = 10, visible = False, ltype = GroupEnd\<rparr>,
      \<lparr>layer_id = 20, visible = False, ltype = Group\<rparr>,
      \<lparr>layer_id = 33, visible = True, ltype = Layer\<rparr>,
      \<lparr>layer_id = 51, visible = False, ltype = Layer\<rparr>,
      \<lparr>layer_id = 20, visible = False, ltype = GroupEnd\<rparr>]"

definition timerToA :: InteractionElement where
  "timerToA = (newElement 0 ''timer'')\<lparr>el_action := Some ''navigate'', el_target := Some ''a'',
                 el_triggerOn := Some [''b'']\<rparr>"

definition timerToB :: InteractionElement where
  "timerToB = (newElement 0 ''timer'')\<lparr>el_action := Some ''navigate'', el_target := Some ''b'',
                 el_delay := DelayNumber 3, el_triggerOn := Some [''a'']\<rparr>"

definition displayD1 :: InteractionElement where
  "displayD1 = (newElement 31 ''display'')\<lparr>el_name := Some ''d1''\<rparr>"

definition displayD2 :: InteractionElement where
  "displayD2 = (newElement 32 ''display'')\<lparr>el_name := Some ''d2'', el_value := Some ''-''\<rparr>"

definition displayNum :: InteractionElement where
  "displayNum = (newElement 33 ''display'')\<lparr>el_name := Some ''num'', el_value := Some ''--''\<rparr>"

definition highlightH1 :: InteractionElement where
  "highlightH1 = (newElement 41 ''highlight'')\<lparr>el_name := Some ''h1'', el_group := Some ''g''\<rparr>"

definition highlightH2 :: InteractionElement where
  "highlightH2 = (newElement 42 ''highlight'')\<lparr>el_name := Some ''h2'', el_group := Some ''g''\<rparr>"

definition sampleConfig :: InteractionConfig where
  "sampleConfig =
     \<lparr>elements =
        [(newElement 10 ''screen'')\<lparr>el_name := Some ''a''\<rparr>,
         (newElement 20 ''screen'')\<lparr>el_name := Some ''b''\<rparr>,
         displayD1, displayD2, displayNum, highlightH1, highlightH2,
         (newElement 51 ''popup'')\<lparr>el_name := Some ''p''\<rparr>,
         timerToA, timerToB],
      screens = [''a'', ''b''],
      initialScreen = ''a''\<rparr>"


definition digitButton :: "string \<Rightarrow> string \<Rightarrow> InteractionElement" where
  "digitButton v t = (newElement 0 ''input_digit'')\<lparr>el_action := Some ''input_digit'',
                        el_target := Some t, el_value := Some v\<rparr>"

text \<open>The example document loaded, then the example configuration set.\<close>

definition sampleWorld :: World where
  "sampleWorld = run [EvLoadPsd sampleLayers, EvSetConfig sampleConfig] initialWorld"

section \<open>Auxiliary notions of the verification\<close>

text \<open>The entries and the console lines \<^verbatim>\<open>startScreenTimers\<close> adds for a list of armed elements.\<close>

definition newScreenTimers :: "InteractionElement list \<Rightarrow> nat \<Rightarrow> Timer list" where
  "newScreenTimers es n = map (\<lambda>(k, e). (k, timerDelay e, ScreenTimerTask e)) (enumerate n es)"

definition timerLogs :: "InteractionElement list \<Rightarrow> string \<Rightarrow> LogEntry list" where
  "timerLogs es s = map (\<lambda>e. LogStartScreenTimer (el_action e) (el_target e) (timerDelay e) s) es"





text \<open>The timer elements \<^verbatim>\<open>startScreenTimers\<close> arms on a screen.\<close>

definition armedTimers :: "InteractionConfig \<Rightarrow> string \<Rightarrow> InteractionElement list" where
  "armedTimers cfg s =
     filter (\<lambda>e. triggersOn e s) (filter (\<lambda>e. el_type e = ''timer'') (elements cfg))"

text \<open>
  No later write of \<^verbatim>\<open>applyScreenVisibility\<close> disagrees with the screen pass on the
  layer of screen element \<open>e\<close>: no element on that layer carries \<^verbatim>\<open>showOn\<close> or is a
  highlight or a popup, and the screen elements on that layer agree on whether their name
  is the screen navigated to.
\<close>

definition screenDecidesLayer :: "InteractionConfig \<Rightarrow> string \<Rightarrow> InteractionElement \<Rightarrow> bool" where
  "screenDecidesLayer cfg screenName e =
     (\<forall>e' \<in> set (elements cfg).
        el_layerId e' = el_layerId e \<longrightarrow>
          el_showOn e' = None \<and> el_type e' \<noteq> ''highlight'' \<and> el_type e' \<noteq> ''popup''
          \<and> (el_type e' = ''screen'' \<longrightarrow>
                (el_name e' = Some screenName) = (el_name e = Some screenName)))"

text \<open>The configuration of the specification's example: screens \<open>a\<close> on layer 10 and
  \<open>b\<close> on layer 20; and one whose screen \<open>a\<close> also carries \<^verbatim>\<open>showOn: ["b"]\<close>.\<close>

definition twoScreens :: InteractionConfig where
  "twoScreens =
     \<lparr>elements = [(newElement 10 ''screen'')\<lparr>el_name := Some ''a''\<rparr>,
                  (newElement 20 ''screen'')\<lparr>el_name := Some ''b''\<rparr>],
      screens = [''a'', ''b''], initialScreen = ''a''\<rparr>"

definition twoScreensShowOn :: InteractionConfig where
  "twoScreensShowOn =
     \<lparr>elements = [(newElement 10 ''screen'')\<lparr>el_name := Some ''a'', el_showOn := Some [''b'']\<rparr>,
                  (newElement 20 ''screen'')\<lparr>el_name := Some ''b''\<rparr>],
      screens = [''a'', ''b''], initialScreen = ''a''\<rparr>"

definition onlyLayer20 :: "LayerInfo list" where
  "onlyLayer20 = [\<lparr>layer_id = 20, visible = True, ltype = Layer\<rparr>]"

definition layers10and20 :: "LayerInfo list" where
  "layers10and20 = [\<lparr>layer_id = 10, visible = True, ltype = Layer\<rparr>,
                    \<lparr>layer_id = 20, visible = True, ltype = Layer\<rparr>]"

text \<open>Notions for the timer subsystem.\<close>

fun isNavigationLog :: "LogEntry \<Rightarrow> bool" where
  "isNavigationLog (LogNavigateToScreen s) = True"
| "isNavigationLog _ = False"

text \<open>The number of navigations performed so far, read off the console.\<close>

definition navigations :: "World \<Rightarrow> nat" where
  "navigations w = length (filter isNavigationLog (console w))"

fun isScreenTimer :: "Timer \<Rightarrow> bool" where
  "isScreenTimer (h, delay, ScreenTimerTask elem) = True"
| "isScreenTimer _ = False"

text \<open>The handles of the pending screen timers, and of all pending timers.\<close>

definition screenTimerHandles :: "World \<Rightarrow> nat set" where
  "screenTimerHandles w = fst ` {t \<in> set (timers w). isScreenTimer t}"

definition pendingHandles :: "World \<Rightarrow> nat set" where
  "pendingHandles w = fst ` set (timers w)"

text \<open>
  The invariant of the timer table: handles are pairwise distinct and below the next
  handle, and every pending screen timer is tracked in \<open>screenTimerIds\<close> and was armed
  for the current screen.
\<close>

definition timersTracked :: "World \<Rightarrow> bool" where
  "timersTracked w =
     (distinct (map fst (timers w))
      \<and> (\<forall>t \<in> set (timers w). fst t < nextTimerId w)
      \<and> (\<forall>t \<in> set (timers w). \<forall>elem. snd (snd t) = ScreenTimerTask elem \<longrightarrow>
            fst t \<in> set (screenTimerIds w)
            \<and> (\<exists>s. currentScreen w = Some s \<and> triggersOn elem s)))"

text \<open>The part of the world the invariant and the navigation count depend on.\<close>

definition timerView ::
  "World \<Rightarrow> Timer list \<times> nat \<times> nat list \<times> string option \<times> InteractionConfig option \<times> nat" where
  "timerView w =
     (timers w, nextTimerId w, screenTimerIds w, currentScreen w, config w, navigations w)"

text \<open>
  A step that performs no navigation: it may clear timers and add timers that are no
  screen timers, under fresh handles.
\<close>

definition quiet :: "World \<Rightarrow> World \<Rightarrow> bool" where
  "quiet w w' =
     (config w' = config w \<and> screenTimerIds w' = screenTimerIds w
      \<and> currentScreen w' = currentScreen w \<and> navigations w' = navigations w
      \<and> nextTimerId w \<le> nextTimerId w'
      \<and> (\<exists>P extra. timers w' = filter P (timers w) @ extra
            \<and> distinct (map fst extra)
            \<and> (\<forall>t \<in> set extra. nextTimerId w \<le> fst t \<and> fst t < nextTimerId w'
                    \<and> \<not> isScreenTimer t)))"

text \<open>
  A step that removes every pending screen timer and arms new ones: the shape of
  \<^verbatim>\<open>navigateToScreen\<close>, \<^verbatim>\<open>setConfig\<close> and \<^verbatim>\<open>clear\<close>.
\<close>

definition rearmed :: "World \<Rightarrow> World \<Rightarrow> bool" where
  "rearmed w w' =
     (\<exists>P extra es n.
        timers w' = filter P (timers w) @ extra @ newScreenTimers es n
        \<and> (\<forall>t \<in> set (timers w). isScreenTimer t \<longrightarrow> \<not> P t)
        \<and> distinct (map fst extra)
        \<and> (\<forall>t \<in> set extra. nextTimerId w \<le> fst t \<and> fst t < n \<and> \<not> isScreenTimer t)
        \<and> nextTimerId w \<le> n \<and> nextTimerId w' = n + length es
        \<and> screenTimerIds w' = [n ..< n + length es]
        \<and> (\<forall>e \<in> set es. \<exists>s. currentScreen w' = Some s \<and> triggersOn e s))"

text \<open>No pending timer of \<open>w'\<close> is a screen timer of \<open>w\<close>: each is a timer of \<open>w\<close> that
  is no screen timer, or carries a handle \<open>w\<close> had not handed out.\<close>

definition screenTimersDead :: "World \<Rightarrow> World \<Rightarrow> bool" where
  "screenTimersDead w w' =
     (\<forall>t \<in> set (timers w'). (t \<in> set (timers w) \<and> \<not> isScreenTimer t) \<or> nextTimerId w \<le> fst t)"

text \<open>Handles are never handed out twice: a pending timer of \<open>w'\<close> was pending in \<open>w\<close>
  or carries a handle \<open>w\<close> had not handed out.\<close>

definition handlesFresh :: "World \<Rightarrow> World \<Rightarrow> bool" where
  "handlesFresh w w' =
     (nextTimerId w \<le> nextTimerId w'
      \<and> (\<forall>t \<in> set (timers w'). t \<in> set (timers w) \<or> nextTimerId w \<le> fst t))"

text \<open>The two shapes of a step.\<close>

definition stepShape :: "World \<Rightarrow> World \<Rightarrow> bool" where
  "stepShape w w' = (quiet w w' \<or> (\<exists>w1. quiet w w1 \<and> rearmed w1 w'))"

section \<open>The chat store: configuration carried by a response\<close>

text \<open>
  A response of the assistant is free text; \<^verbatim>\<open>parseInteractionConfig\<close> looks for a fenced
  block, hands its contents to \<^verbatim>\<open>JSON.parse\<close> and accepts the value when it has an array
  property \<^verbatim>\<open>elements\<close>. The value is returned as it was parsed (the cast to
  \<^verbatim>\<open>InteractionConfig\<close> checks nothing), so the configuration of the chat store is a JSON
  value.
\<close>

datatype Json =
    JNull
  | JBool bool
  | JNumber int
  | JString string
  | JArray "Json list"
  | JObject "(string \<times> Json) list"

subsection \<open>The regular expression\<close>

text \<open>
  \<^verbatim>\<open>text.match(/```json\s*\n([\s\S]*?)\n```/)\<close>, by the backtracking order of the matcher:
  the leftmost start position for which the rest can match; there \<^verbatim>\<open>\s*\<close> takes as much
  white space as it can and gives it back one character at a time, \<^verbatim>\<open>\n\<close> is one line
  feed, the group \<^verbatim>\<open>([\s\S]*?)\<close> takes as few characters, of any kind, as it can, up to
  the first line feed followed by three backquotes. The result is the group, or \<open>None\<close> for
  \<^verbatim>\<open>null\<close>.
\<close>

definition startsWith :: "string \<Rightarrow> string \<Rightarrow> bool" where
  "startsWith p s = (take (length p) s = p)"


definition closeFence :: string where
  "closeFence = CHR 0x0A # ''```''"

fun lazyBody :: "string \<Rightarrow> string option" where
  "lazyBody [] = None"
| "lazyBody (c # cs) =
     (if startsWith closeFence (c # cs) then Some []
      else map_option ((#) c) (lazyBody cs))"




subsection \<open>parseInteractionConfig and the update of the store\<close>






subsection \<open>A parser for the examples\<close>

text \<open>
  The examples need values of \<^verbatim>\<open>JSON.parse\<close> on concrete texts. \<open>jsonParse\<close> reads the JSON
  grammar with two restrictions: numbers are integers (no fraction, no exponent) and
  strings have no \<^verbatim>\<open>\u\<close> escape. A later member of an object replaces an earlier one of
  the same name. The counter bounds the depth of the recursion; every second call
  consumes a character, so twice the length of the text is enough.
\<close>

definition isJsonSpace :: "char \<Rightarrow> bool" where
  "isJsonSpace c = (c \<in> set [CHR 0x20, CHR 0x09, CHR 0x0A, CHR 0x0D])"

definition skipSpace :: "string \<Rightarrow> string" where
  "skipSpace s = dropWhile isJsonSpace s"

definition unescape :: "char \<Rightarrow> char option" where
  "unescape c =
     (if c = CHR 0x22 \<or> c = CHR 0x5C \<or> c = CHR ''/'' then Some c
      else if c = CHR ''b'' then Some (CHR 0x08)
      else if c = CHR ''f'' then Some (CHR 0x0C)
      else if c = CHR ''n'' then Some (CHR 0x0A)
      else if c = CHR ''r'' then Some (CHR 0x0D)
      else if c = CHR ''t'' then Some (CHR 0x09)
      else None)"

fun parseString :: "string \<Rightarrow> (string \<times> string) option" where
  "parseString [] = None"
| "parseString (c # cs) =
     (if c = CHR 0x22 then Some ([], cs)
      else if c = CHR 0x5C then
        (case cs of
           [] \<Rightarrow> None
         | e # rest \<Rightarrow>
             (case unescape e of
                None \<Rightarrow> None
              | Some x \<Rightarrow> map_option (\<lambda>(str, r). (x # str, r)) (parseString rest)))
      else if (of_char c :: nat) < 0x20 then None
      else map_option (\<lambda>(str, r). (c # str, r)) (parseString cs))"

definition isDigit :: "char \<Rightarrow> bool" where
  "isDigit c = (c \<in> set ''0123456789'')"

definition digitsValue :: "string \<Rightarrow> int" where
  "digitsValue ds = foldl (\<lambda>acc c. 10 * acc + (of_char c - 48)) 0 ds"

definition parseDigits :: "string \<Rightarrow> (int \<times> string) option" where
  "parseDigits s =
     (let ds = takeWhile isDigit s in
        if ds = [] \<or> (1 < length ds \<and> hd ds = CHR ''0'') then None
        else Some (digitsValue ds, dropWhile isDigit s))"

definition parseNumber :: "string \<Rightarrow> (int \<times> string) option" where
  "parseNumber s =
     (if startsWith ''-'' s then map_option (\<lambda>(n, r). (- n, r)) (parseDigits (tl s))
      else parseDigits s)"

fun parseValue :: "nat \<Rightarrow> string \<Rightarrow> (Json \<times> string) option"
  and parseElements :: "nat \<Rightarrow> string \<Rightarrow> (Json list \<times> string) option"
  and parseMembers :: "nat \<Rightarrow> string \<Rightarrow> ((string \<times> Json) list \<times> string) option"
where
  "parseValue 0 s = None"
| "parseValue (Suc n) s =
     (case skipSpace s of
        [] \<Rightarrow> None
      | c # cs \<Rightarrow>
          if c = CHR ''{'' then
            (if startsWith ''}'' (skipSpace cs) then Some (JObject [], tl (skipSpace cs))
             else map_option
                    (\<lambda>(ms, r). (JObject (fold (\<lambda>(k, v). AList.update k v) ms []), r))
                    (parseMembers n cs))
          else if c = CHR ''['' then
            (if startsWith '']'' (skipSpace cs) then Some (JArray [], tl (skipSpace cs))
             else map_option (\<lambda>(vs, r). (JArray vs, r)) (parseElements n cs))
          else if c = CHR 0x22 then map_option (\<lambda>(str, r). (JString str, r)) (parseString cs)
          else if startsWith ''true'' (c # cs) then Some (JBool True, drop 4 (c # cs))
          else if startsWith ''false'' (c # cs) then Some (JBool False, drop 5 (c # cs))
          else if startsWith ''null'' (c # cs) then Some (JNull, drop 4 (c # cs))
          else map_option (\<lambda>(i, r). (JNumber i, r)) (parseNumber (c # cs)))"
| "parseElements 0 s = None"
| "parseElements (Suc n) s =
     (case parseValue n s of
        None \<Rightarrow> None
      | Some (v, r) \<Rightarrow>
          (case skipSpace r of
             [] \<Rightarrow> None
           | c # r' \<Rightarrow>
               if c = CHR '','' then map_option (\<lambda>(vs, r''). (v # vs, r'')) (parseElements n r')
               else if c = CHR '']'' then Some ([v], r')
               else None))"
| "parseMembers 0 s = None"
| "parseMembers (Suc n) s =
     (case skipSpace s of
        [] \<Rightarrow> None
      | q # s1 \<Rightarrow>
          if q \<noteq> CHR 0x22 then None
          else
            (case parseString s1 of
               None \<Rightarrow> None
             | Some (k, s2) \<Rightarrow>
                 (case skipSpace s2 of
                    [] \<Rightarrow> None
                  | colon # s3 \<Rightarrow>
                      if colon \<noteq> CHR '':'' then None
                      else
                        (case parseValue n s3 of
                           None \<Rightarrow> None
                         | Some (v, r) \<Rightarrow>
                             (case skipSpace r of
                                [] \<Rightarrow> None
                              | c # r' \<Rightarrow>
                                  if c = CHR '','' then
                                    map_option (\<lambda>(ms, r''). ((k, v) # ms, r'')) (parseMembers n r')
                                  else if c = CHR ''}'' then Some ([(k, v)], r')
                                  else None)))))"










section \<open>Verification\<close>

subsection \<open>Properties of the resolver\<close>









subsection \<open>Frame of the slider update\<close>

text \<open>
  C8. \<^verbatim>\<open>setSliderValue(layerId, value)\<close> updates only the entry of \<open>layerId\<close> in
  \<open>sliderValues\<close>: the current screen, popups, highlight selections, dynamic texts, timers
  and visibility overrides are unchanged, and no visibility batch, text push or
  recomposite request is issued.
\<close>

theorem setSliderValue_frame:
  "map_of (sliderValues (setSliderValue layerId v w)) = (map_of (sliderValues w))(layerId \<mapsto> v)
   \<and> config (setSliderValue layerId v w) = config w
   \<and> currentScreen (setSliderValue layerId v w) = currentScreen w
   \<and> elementScreenMap (setSliderValue layerId v w) = elementScreenMap w
   \<and> activePopups (setSliderValue layerId v w) = activePopups w
   \<and> selectedHighlights (setSliderValue layerId v w) = selectedHighlights w
   \<and> dynamicTexts (setSliderValue layerId v w) = dynamicTexts w
   \<and> clockTimers (setSliderValue layerId v w) = clockTimers w
   \<and> screenTimerIds (setSliderValue layerId v w) = screenTimerIds w
   \<and> timers (setSliderValue layerId v w) = timers w
   \<and> nextTimerId (setSliderValue layerId v w) = nextTimerId w
   \<and> psd (setSliderValue layerId v w) = psd w
   \<and> visibilityOverrides (setSliderValue layerId v w) = visibilityOverrides w
   \<and> batches (setSliderValue layerId v w) = batches w
   \<and> requests (setSliderValue layerId v w) = requests w
   \<and> console (setSliderValue layerId v w) = console w"
  by (simp add: setSliderValue_def update_conv')

subsection \<open>Delay of the screen timers\<close>



lemmas sample_defs = sampleConfig_def newElement_def timerToA_def timerToB_def displayD1_def
  displayD2_def displayNum_def highlightH1_def highlightH2_def


subsection \<open>Effects of the primitives\<close>

lemma map_of_fold_update:
  "map_of (fold (\<lambda>e m. if P e then AList.update (k e) (v e) m else m) es m0) x =
     (case find (\<lambda>e. P e \<and> k e = x) (rev es) of
        None \<Rightarrow> map_of m0 x
      | Some e \<Rightarrow> Some (v e))"
  by (induction es rule: rev_induct) (auto simp: update_conv')

lemma clearTimer_eq: "clearTimer h w = w\<lparr>timers := filter (\<lambda>t. fst t \<noteq> h) (timers w)\<rparr>"
  by (simp add: clearTimer_def)

lemma fold_clearTimer:
  "fold clearTimer ids w = w\<lparr>timers := filter (\<lambda>t. fst t \<notin> set ids) (timers w)\<rparr>"
proof (induction ids arbitrary: w)
  case Nil
  then show ?case by simp
next
  case (Cons h ids)
  have "filter (\<lambda>t. fst t \<notin> set ids) (filter (\<lambda>t. fst t \<noteq> h) ts)
      = filter (\<lambda>t. fst t \<notin> set (h # ids)) ts" for ts :: "Timer list"
    by (induction ts) auto
  then show ?case by (simp add: Cons, simp add: clearTimer_def)
qed

lemma stopScreenTimers_eq:
  "stopScreenTimers ids w = w\<lparr>timers := filter (\<lambda>t. fst t \<notin> set ids) (timers w)\<rparr>"
  by (simp add: stopScreenTimers_def fold_clearTimer)

lemma stopClocks_eq:
  "stopClocks w = w\<lparr>timers := filter (\<lambda>t. fst t \<notin> snd ` set (clockTimers w)) (timers w),
                    clockTimers := []\<rparr>"
proof -
  have "(\<lambda>(layerId :: int, timerId). clearTimer timerId) = clearTimer \<circ> snd"
    by (simp add: fun_eq_iff)
  then have "fold (\<lambda>(layerId, timerId). clearTimer timerId) (clockTimers w) w
      = fold clearTimer (map snd (clockTimers w)) w"
    by (simp add: fold_map)
  then show ?thesis by (simp add: stopClocks_def fold_clearTimer)
qed

lemma startScreenTimersLoop_eq:
  "startScreenTimersLoop es s ids w =
     (let armed = filter (\<lambda>e. triggersOn e s) es in
      (ids @ [nextTimerId w ..< nextTimerId w + length armed],
       w\<lparr>timers := timers w @ newScreenTimers armed (nextTimerId w),
         nextTimerId := nextTimerId w + length armed,
         console := console w @ timerLogs armed s\<rparr>))"
proof (induction es arbitrary: ids w)
  case Nil
  then show ?case by (simp add: newScreenTimers_def timerLogs_def)
next
  case (Cons e es)
  show ?case
  proof (cases "triggersOn e s")
    case False
    then show ?thesis using Cons by simp
  next
    case True
    then show ?thesis
      by (simp add: Cons setTimer_def Let_def newScreenTimers_def timerLogs_def upt_rec[of "nextTimerId w"])
  qed
qed

lemma startScreenTimers_eq:
  "startScreenTimers cfg s w =
     (let armed = filter (\<lambda>e. triggersOn e s) (filter (\<lambda>e. el_type e = ''timer'') (elements cfg)) in
      ([nextTimerId w ..< nextTimerId w + length armed],
       w\<lparr>timers := timers w @ newScreenTimers armed (nextTimerId w),
         nextTimerId := nextTimerId w + length armed,
         console := console w @ timerLogs armed s\<rparr>))"
  by (simp add: startScreenTimers_def startScreenTimersLoop_eq)

lemma setMultipleVisibility_frame [simp]:
  "config (setMultipleVisibility b w) = config w"
  "currentScreen (setMultipleVisibility b w) = currentScreen w"
  "elementScreenMap (setMultipleVisibility b w) = elementScreenMap w"
  "sliderValues (setMultipleVisibility b w) = sliderValues w"
  "clockTimers (setMultipleVisibility b w) = clockTimers w"
  "screenTimerIds (setMultipleVisibility b w) = screenTimerIds w"
  "activePopups (setMultipleVisibility b w) = activePopups w"
  "selectedHighlights (setMultipleVisibility b w) = selectedHighlights w"
  "dynamicTexts (setMultipleVisibility b w) = dynamicTexts w"
  "psd (setMultipleVisibility b w) = psd w"
  "timers (setMultipleVisibility b w) = timers w"
  "nextTimerId (setMultipleVisibility b w) = nextTimerId w"
  "console (setMultipleVisibility b w) = console w"
  "batches (setMultipleVisibility b w) = batches w @ [b]"
  by (simp_all add: setMultipleVisibility_def Let_def split: option.splits)

lemma applyScreenVisibility_frame [simp]:
  "config (applyScreenVisibility cfg s p h w) = config w"
  "currentScreen (applyScreenVisibility cfg s p h w) = currentScreen w"
  "elementScreenMap (applyScreenVisibility cfg s p h w) = elementScreenMap w"
  "sliderValues (applyScreenVisibility cfg s p h w) = sliderValues w"
  "clockTimers (applyScreenVisibility cfg s p h w) = clockTimers w"
  "screenTimerIds (applyScreenVisibility cfg s p h w) = screenTimerIds w"
  "activePopups (applyScreenVisibility cfg s p h w) = activePopups w"
  "selectedHighlights (applyScreenVisibility cfg s p h w) = selectedHighlights w"
  "dynamicTexts (applyScreenVisibility cfg s p h w) = dynamicTexts w"
  "psd (applyScreenVisibility cfg s p h w) = psd w"
  "timers (applyScreenVisibility cfg s p h w) = timers w"
  "nextTimerId (applyScreenVisibility cfg s p h w) = nextTimerId w"
  "console (applyScreenVisibility cfg s p h w) = console w"
  by (simp_all add: applyScreenVisibility_def split: option.splits)

lemma recomposite_frame [simp]:
  "config (recomposite w) = config w"
  "currentScreen (recomposite w) = currentScreen w"
  "elementScreenMap (recomposite w) = elementScreenMap w"
  "sliderValues (recomposite w) = sliderValues w"
  "clockTimers (recomposite w) = clockTimers w"
  "screenTimerIds (recomposite w) = screenTimerIds w"
  "activePopups (recomposite w) = activePopups w"
  "selectedHighlights (recomposite w) = selectedHighlights w"
  "dynamicTexts (recomposite w) = dynamicTexts w"
  "psd (recomposite w) = psd w"
  "visibilityOverrides (recomposite w) = visibilityOverrides w"
  "timers (recomposite w) = timers w"
  "nextTimerId (recomposite w) = nextTimerId w"
  "console (recomposite w) = console w"
  "batches (recomposite w) = batches w"
  by (simp_all add: recomposite_def split: option.splits)

lemma fold_pushLayerText:
  "fold (\<lambda>e w. if P e then pushLayerText (k e) (v e) w else w) es w
     = w\<lparr>requests := requests w @ map (\<lambda>e. SetLayerText (k e) (v e)) (filter P es)\<rparr>"
  by (induction es arbitrary: w) (simp_all add: pushLayerText_def)


lemma pushInitialTexts_eq:
  "pushInitialTexts cfg w =
     w\<lparr>requests := requests w @
          map (\<lambda>e. SetLayerText (el_layerId e) (nullish (el_value e) ''--''))
              (filter isDisplay (elements cfg))\<rparr>"
  by (simp add: pushInitialTexts_def fold_pushLayerText)

lemma setConfig_dynamicTexts: "dynamicTexts (setConfig cfg w) = initialTexts cfg"
  by (simp add: setConfig_def Let_def startScreenTimers_eq pushInitialTexts_eq setTimer_def
      stopClocks_eq stopScreenTimers_eq)


subsection \<open>Default texts of displays\<close>

lemma find_SomeD: "find P xs = Some x \<Longrightarrow> x \<in> set xs \<and> P x"
  by (induction xs) (auto split: if_splits)

lemma find_rev_SomeD: "find P (rev xs) = Some x \<Longrightarrow> x \<in> set xs \<and> P x"
  using find_SomeD[of P "rev xs" x] by simp

lemma find_rev_exists: "x \<in> set xs \<Longrightarrow> P x \<Longrightarrow> \<exists>y. find P (rev xs) = Some y"
  by (cases "find P (rev xs)") (auto simp: find_None_iff)








lemma setConfig_config: "config (setConfig cfg w) = Some cfg"
  by (simp add: setConfig_def Let_def startScreenTimers_eq pushInitialTexts_eq setTimer_def
      stopClocks_eq stopScreenTimers_eq)

lemma isWhiteSpace_simps [simp]:
  "isWhiteSpace CHR '' ''" "\<not> isWhiteSpace CHR ''d''" "\<not> isWhiteSpace CHR ''1''"
  "\<not> isWhiteSpace CHR ''2''" "\<not> isWhiteSpace CHR ''n''" "\<not> isWhiteSpace CHR ''m''"
  by (simp_all add: isWhiteSpace_def)


subsection \<open>Digit entry\<close>

lemma map_of_fold_update_pairs:
  "map_of (fold (\<lambda>(d, v). AList.update (k d) v) zs m) =
     map_of m ++ map_of (rev (map (\<lambda>(d, v). (k d, v)) zs))"
  by (induction zs arbitrary: m) (auto simp: update_conv' fun_eq_iff map_add_def split: option.splits)

lemma map_of_rev_distinct:
  "distinct (map fst xs) \<Longrightarrow> map_of (rev xs) = map_of xs"
proof (induction xs)
  case Nil
  then show ?case by simp
next
  case (Cons x xs)
  then have "fst x \<notin> dom (map_of xs)"
    by (simp add: dom_map_of_conv_image_fst)
  then have "map_of xs (fst x) = None" by blast
  with Cons show ?case
    by (cases x) (auto simp: fun_eq_iff map_add_def split: option.splits)
qed

lemma fold_shift_indices:
  assumes "length ys = length xs"
  shows "fold (\<lambda>i. f (xs ! i) (ys ! (i + 1))) [0 ..< length xs - 1] w
       = fold (\<lambda>(x, y). f x y) (zip (butlast xs) (tl ys)) w"
proof -
  have "map (\<lambda>i. (xs ! i, ys ! (i + 1))) [0 ..< length xs - 1] = zip (butlast xs) (tl ys)"
    using assms by (intro nth_equalityI) (simp_all add: nth_butlast nth_tl)
  then have "fold (\<lambda>(x, y). f x y) (zip (butlast xs) (tl ys)) w
      = fold (\<lambda>(x, y). f x y) (map (\<lambda>i. (xs ! i, ys ! (i + 1))) [0 ..< length xs - 1]) w"
    by simp
  also have "\<dots> = fold (\<lambda>i. f (xs ! i) (ys ! (i + 1))) [0 ..< length xs - 1] w"
    by (simp add: fold_map o_def)
  finally show ?thesis by simp
qed

lemma zip_shift:
  assumes "length ys = length xs" "xs \<noteq> []"
  shows "zip (butlast xs) (tl ys) @ [(last xs, z)] = zip xs (tl ys @ [z])"
proof -
  have "zip (butlast xs @ [last xs]) (tl ys @ [z]) = zip (butlast xs) (tl ys) @ zip [last xs] [z]"
    using assms by (intro zip_append) simp
  with assms show ?thesis by simp
qed

lemma executeAction_input_digit:
  "el_action a = Some ''input_digit'' \<Longrightarrow> el_value a = Some digit \<Longrightarrow>
   executeAction a w = inputDigit a digit (w\<lparr>console := console w @
        [LogExecuteAction (el_type a) (el_action a) (el_value a) (el_target a)]\<rparr>)"
  by (simp add: executeAction_def nullish_def)

lemma inputDigitSingle_dynamicTexts:
  "dynamicTexts (inputDigitSingle d digit w) =
     AList.update (el_layerId d) (nextSingle (readText (dynamicTexts w) ''--'' d) digit) (dynamicTexts w)"
  by (simp add: inputDigitSingle_def Let_def setDynamicText_def pushLayerText_def)

lemma nextSingle_two:
  "nextSingle [c1, c2] digit =
     (if c1 = CHR ''-'' \<and> c2 = CHR ''-'' then CHR ''-'' # digit
      else if c1 = CHR ''-'' then c2 # digit
      else [c1, c2])"
  by (simp add: nextSingle_def charAt_def emptyValue_def)

lemma pushDisplayTexts_dynamicTexts [simp]:
  "dynamicTexts (pushDisplayTexts ds w) = dynamicTexts w"
proof -
  have "dynamicTexts (fold (\<lambda>d. pushLayerText (el_layerId d) (f d)) ds w) = dynamicTexts w" for f
    by (induction ds arbitrary: w) (simp_all add: pushLayerText_def)
  then show ?thesis by (simp add: pushDisplayTexts_def Let_def)
qed

lemma inputDigitMulti_dynamicTexts:
  assumes "ds \<noteq> []"
    and "\<not> list_all (\<lambda>d. readText (dynamicTexts w) emptyValue d \<noteq> emptyValue) ds"
  shows "dynamicTexts (inputDigitMulti ds digit w) =
     fold (\<lambda>(d, v). AList.update (el_layerId d) v)
       (zip ds (tl (map (readText (dynamicTexts w) emptyValue) ds) @ [digit])) (dynamicTexts w)"
proof -
  let ?cv = "map (readText (dynamicTexts w) emptyValue) ds"
  have len: "length ?cv = length ds" by simp
  have shift: "fold (\<lambda>i. setDynamicText (el_layerId (ds ! i)) (?cv ! (i + 1))) [0 ..< length ds - 1] w
      = fold (\<lambda>(d, v). setDynamicText (el_layerId d) v) (zip (butlast ds) (tl ?cv)) w"
    using fold_shift_indices[OF len, of "\<lambda>d v. setDynamicText (el_layerId d) v" w] by simp
  have sets: "dynamicTexts (fold (\<lambda>(d, v). setDynamicText (el_layerId d) v) zs w)
      = fold (\<lambda>(d, v). AList.update (el_layerId d) v) zs (dynamicTexts w)" for zs w
    by (induction zs arbitrary: w) (simp_all add: setDynamicText_def case_prod_unfold)
  have lastd: "ds ! (length ds - 1) = last ds"
    using assms(1) by (simp add: last_conv_nth)
  have "inputDigitMulti ds digit w
      = recomposite (pushDisplayTexts ds (setDynamicText (el_layerId (last ds)) digit
          (fold (\<lambda>(d, v). setDynamicText (el_layerId d) v) (zip (butlast ds) (tl ?cv)) w)))"
    using assms(2) unfolding inputDigitMulti_def Let_def shift lastd by (simp only: if_False)
  then have "dynamicTexts (inputDigitMulti ds digit w)
      = AList.update (el_layerId (last ds)) digit
          (fold (\<lambda>(d, v). AList.update (el_layerId d) v) (zip (butlast ds) (tl ?cv)) (dynamicTexts w))"
    by (simp add: sets setDynamicText_def)
  also have "\<dots> = fold (\<lambda>(d, v). AList.update (el_layerId d) v)
      (zip (butlast ds) (tl ?cv) @ [(last ds, digit)]) (dynamicTexts w)"
    by simp
  also have "zip (butlast ds) (tl ?cv) @ [(last ds, digit)] = zip ds (tl ?cv @ [digit])"
    using zip_shift[OF len assms(1)] .
  finally show ?thesis .
qed

lemma fold_update_zip_nth:
  assumes "length vs = length ds" "distinct (map k ds)" "i < length ds"
  shows "map_of (fold (\<lambda>(d, v). AList.update (k d) v) (zip ds vs) m) (k (ds ! i)) = Some (vs ! i)"
proof -
  have z: "map (\<lambda>(d, v). (k d, v)) (zip ds vs) = zip (map k ds) vs"
    by (simp add: zip_map1 case_prod_unfold)
  have d: "distinct (map fst (zip (map k ds) vs))"
    using assms by simp
  have "map_of (zip (map k ds) vs) (map k ds ! i) = Some (vs ! i)"
    using assms by (intro map_of_zip_nth) simp_all
  then show ?thesis
    using assms by (simp add: map_of_fold_update_pairs z map_of_rev_distinct[OF d])
qed

lemma fold_update_zip_other:
  assumes "length vs = length ds" "x \<notin> k ` set ds"
  shows "map_of (fold (\<lambda>(d, v). AList.update (k d) v) (zip ds vs) m) x = map_of m x"
proof -
  have z: "map (\<lambda>(d, v). (k d, v)) (zip ds vs) = zip (map k ds) vs"
    by (simp add: zip_map1 case_prod_unfold)
  have "x \<notin> fst ` set (rev (zip (map k ds) vs))"
    using assms by (auto dest: set_zip_leftD)
  then have "map_of (rev (zip (map k ds) vs)) x = None"
    using map_of_eq_None_iff[of "rev (zip (map k ds) vs)" x] by blast
  then show ?thesis
    by (simp add: map_of_fold_update_pairs z map_add_def)
qed

text \<open>
  C3. An \<^verbatim>\<open>input_digit\<close> action with digit \<open>digit\<close>. One target display holding the
  two characters \<open>c1 c2\<close>: the new text is \<open>-\<close> followed by the digit when both are
  \<open>-\<close>, \<open>c2\<close> followed by the digit when only \<open>c1\<close> is \<open>-\<close>, and unchanged when neither
  is. Several targets: when every display holds a character other than \<open>-\<close> the action
  changes nothing but the console; otherwise the texts are read first, then display \<open>i\<close>
  is written with the text read from display \<open>i + 1\<close> and the last display with the
  digit, in this order. For displays on distinct layers this gives every display but the
  last the old text of its right neighbour and the last one the digit, all other texts
  unchanged. The text read from a display is its entry of \<open>dynamicTexts\<close>, or \<open>-\<close> when
  the entry is absent or the empty string.
\<close>

theorem input_digit_shift:
  assumes a: "el_action a = Some ''input_digit''" "el_value a = Some digit"
    and cfg: "config w = Some cfg"
  shows "(resolveDisplays cfg a = [d] \<and> map_of (dynamicTexts w) (el_layerId d) = Some [c1, c2] \<longrightarrow>
            (c1 = CHR ''-'' \<and> c2 = CHR ''-'' \<longrightarrow>
               map_of (dynamicTexts (executeAction a w)) (el_layerId d) = Some (CHR ''-'' # digit))
          \<and> (c1 = CHR ''-'' \<and> c2 \<noteq> CHR ''-'' \<longrightarrow>
               map_of (dynamicTexts (executeAction a w)) (el_layerId d) = Some (c2 # digit))
          \<and> (c1 \<noteq> CHR ''-'' \<and> c2 \<noteq> CHR ''-'' \<longrightarrow>
               map_of (dynamicTexts (executeAction a w)) (el_layerId d) = Some [c1, c2]))
       \<and> (2 \<le> length (resolveDisplays cfg a)
            \<and> list_all (\<lambda>d. readText (dynamicTexts w) ''-'' d \<noteq> ''-'') (resolveDisplays cfg a) \<longrightarrow>
            executeAction a w = w\<lparr>console := console w @
               [LogExecuteAction (el_type a) (el_action a) (el_value a) (el_target a)]\<rparr>)
       \<and> (2 \<le> length (resolveDisplays cfg a)
            \<and> \<not> list_all (\<lambda>d. readText (dynamicTexts w) ''-'' d \<noteq> ''-'') (resolveDisplays cfg a) \<longrightarrow>
            dynamicTexts (executeAction a w) =
              fold (\<lambda>(d, v). AList.update (el_layerId d) v)
                (zip (resolveDisplays cfg a)
                     (tl (map (readText (dynamicTexts w) ''-'') (resolveDisplays cfg a)) @ [digit]))
                (dynamicTexts w)
          \<and> (distinct (map el_layerId (resolveDisplays cfg a)) \<longrightarrow>
               (\<forall>i < length (resolveDisplays cfg a) - 1.
                  map_of (dynamicTexts (executeAction a w)) (el_layerId (resolveDisplays cfg a ! i))
                    = Some (readText (dynamicTexts w) ''-'' (resolveDisplays cfg a ! (i + 1))))
             \<and> map_of (dynamicTexts (executeAction a w)) (el_layerId (last (resolveDisplays cfg a)))
                  = Some digit
             \<and> (\<forall>x. x \<notin> el_layerId ` set (resolveDisplays cfg a) \<longrightarrow>
                  map_of (dynamicTexts (executeAction a w)) x = map_of (dynamicTexts w) x)))"
proof -
  let ?w = "w\<lparr>console := console w @
        [LogExecuteAction (el_type a) (el_action a) (el_value a) (el_target a)]\<rparr>"
  let ?ds = "resolveDisplays cfg a"
  have ex: "executeAction a w = inputDigit a digit ?w"
    using a by (rule executeAction_input_digit)
  have c: "config ?w = Some cfg" "dynamicTexts ?w = dynamicTexts w"
    using cfg by simp_all
  have single: "map_of (dynamicTexts (executeAction a w)) (el_layerId d)
        = Some (if c1 = CHR ''-'' \<and> c2 = CHR ''-'' then CHR ''-'' # digit
                else if c1 = CHR ''-'' then c2 # digit else [c1, c2])"
    if "?ds = [d]" "map_of (dynamicTexts w) (el_layerId d) = Some [c1, c2]"
    using that
    by (simp add: ex inputDigit_def c inputDigitSingle_dynamicTexts update_conv'
        readText_def orElse_def nextSingle_two)
  have noop: "executeAction a w = ?w"
    if "2 \<le> length ?ds" "list_all (\<lambda>d. readText (dynamicTexts w) ''-'' d \<noteq> ''-'') ?ds"
  proof -
    from that(1) have "length ?ds \<noteq> 0" "length ?ds \<noteq> 1" by auto
    with that(2) show ?thesis
      by (simp add: ex inputDigit_def c inputDigitMulti_def emptyValue_def Let_def)
  qed
  have multi: "dynamicTexts (executeAction a w) =
      fold (\<lambda>(d, v). AList.update (el_layerId d) v)
        (zip ?ds (tl (map (readText (dynamicTexts w) ''-'') ?ds) @ [digit])) (dynamicTexts w)"
    if "2 \<le> length ?ds" "\<not> list_all (\<lambda>d. readText (dynamicTexts w) ''-'' d \<noteq> ''-'') ?ds"
  proof -
    from that have ne: "?ds \<noteq> []" by auto
    from that(2) have nf: "\<not> list_all (\<lambda>d. readText (dynamicTexts ?w) emptyValue d \<noteq> emptyValue) ?ds"
      by (simp add: emptyValue_def)
    from that(1) have "length ?ds \<noteq> 0" "length ?ds \<noteq> 1" by auto
    then show ?thesis
      using inputDigitMulti_dynamicTexts[OF ne nf, of digit]
      by (simp add: ex inputDigit_def c emptyValue_def Let_def)
  qed
  have point: "(\<forall>i < length ?ds - 1.
          map_of (dynamicTexts (executeAction a w)) (el_layerId (?ds ! i))
            = Some (readText (dynamicTexts w) ''-'' (?ds ! (i + 1))))
      \<and> map_of (dynamicTexts (executeAction a w)) (el_layerId (last ?ds)) = Some digit
      \<and> (\<forall>x. x \<notin> el_layerId ` set ?ds \<longrightarrow>
            map_of (dynamicTexts (executeAction a w)) x = map_of (dynamicTexts w) x)"
    if len: "2 \<le> length ?ds"
      and nf: "\<not> list_all (\<lambda>d. readText (dynamicTexts w) ''-'' d \<noteq> ''-'') ?ds"
      and dist: "distinct (map el_layerId ?ds)"
  proof -
    let ?vs = "tl (map (readText (dynamicTexts w) ''-'') ?ds) @ [digit]"
    from len have ne: "?ds \<noteq> []" by auto
    have lv: "length ?vs = length ?ds" using ne by (cases ?ds) simp_all
    have nth: "map_of (dynamicTexts (executeAction a w)) (el_layerId (?ds ! i)) = Some (?vs ! i)"
      if "i < length ?ds" for i
      using fold_update_zip_nth[OF lv dist that] by (simp add: multi[OF len nf])
    have shifted: "map_of (dynamicTexts (executeAction a w)) (el_layerId (?ds ! i))
        = Some (readText (dynamicTexts w) ''-'' (?ds ! (i + 1)))" if "i < length ?ds - 1" for i
    proof -
      from that have "i < length ?ds" by simp
      moreover have "?vs ! i = readText (dynamicTexts w) ''-'' (?ds ! (i + 1))"
        using that by (simp add: nth_append nth_tl)
      ultimately show ?thesis using nth[of i] by simp
    qed
    have rightmost: "map_of (dynamicTexts (executeAction a w)) (el_layerId (last ?ds)) = Some digit"
    proof -
      have "length ?ds - 1 < length ?ds" using ne by simp
      moreover have "?vs ! (length ?ds - 1) = digit"
        using ne by (simp add: nth_append)
      moreover have "?ds ! (length ?ds - 1) = last ?ds"
        using ne by (simp add: last_conv_nth)
      ultimately show ?thesis using nth[of "length ?ds - 1"] by simp
    qed
    have other: "map_of (dynamicTexts (executeAction a w)) x = map_of (dynamicTexts w) x"
      if "x \<notin> el_layerId ` set ?ds" for x
      using fold_update_zip_other[OF lv that] by (simp add: multi[OF len nf])
    from shifted rightmost other show ?thesis by blast
  qed
  show ?thesis
    apply (intro conjI impI; elim conjE)
    subgoal using single by simp
    subgoal using single by simp
    subgoal using single by simp
    subgoal using noop by blast
    subgoal using multi by blast
    subgoal using point by blast
    subgoal using point by blast
    subgoal using point by blast
    done
qed

lemma resolveDisplays_num:
  "resolveDisplays sampleConfig (digitButton v ''num'') = [displayNum]"
  by (simp add: resolveDisplays_def targetNames_def digitButton_def newElement_def orElse_def
      trim_def findDisplay_def sampleConfig_def isDisplay_def
      displayD1_def displayD2_def displayNum_def)

lemma resolveDisplays_d1_d2:
  "resolveDisplays sampleConfig (digitButton v ''d1, d2'') = [displayD1, displayD2]"
  by (simp add: resolveDisplays_def targetNames_def digitButton_def newElement_def orElse_def
      trim_def findDisplay_def sampleConfig_def isDisplay_def
      displayD1_def displayD2_def displayNum_def)

lemma sample_initialTexts:
  "initialTexts sampleConfig = [(31, ''--''), (32, ''-''), (33, ''--'')]"
  by (simp add: initialTexts_def sample_defs isDisplay_def nullish_def)

theorem input_digit_shift_witness:
  "resolveDisplays sampleConfig (digitButton ''1'' ''num'') = [displayNum]
   \<and> map_of (dynamicTexts (setConfig sampleConfig initialWorld)) 33 = Some ''--''
   \<and> map_of (dynamicTexts (executeAction (digitButton ''1'' ''num'')
        (setConfig sampleConfig initialWorld))) 33 = Some ''-1''
   \<and> resolveDisplays sampleConfig (digitButton ''1'' ''d1, d2'') = [displayD1, displayD2]
   \<and> map_of (dynamicTexts (executeAction (digitButton ''1'' ''d1, d2'')
        (setConfig sampleConfig initialWorld))) 31 = Some ''-''
   \<and> map_of (dynamicTexts (executeAction (digitButton ''1'' ''d1, d2'')
        (setConfig sampleConfig initialWorld))) 32 = Some ''1''
   \<and> executeAction (digitButton ''3'' ''d1, d2'')
        (setDynamicText 32 ''2'' (setDynamicText 31 ''1'' (setConfig sampleConfig initialWorld)))
      = (setDynamicText 32 ''2'' (setDynamicText 31 ''1'' (setConfig sampleConfig initialWorld)))
          \<lparr>console := console (setConfig sampleConfig initialWorld) @
             [LogExecuteAction ''input_digit'' (Some ''input_digit'') (Some ''3'') (Some ''d1, d2'')]\<rparr>"
proof -
  let ?W = "setConfig sampleConfig initialWorld"
  let ?W2 = "setDynamicText 32 ''2'' (setDynamicText 31 ''1'' ?W)"
  have act: "el_action (digitButton v t) = Some ''input_digit''" "el_value (digitButton v t) = Some v"
    "el_type (digitButton v t) = ''input_digit''" "el_target (digitButton v t) = Some t" for v t
    by (simp_all add: digitButton_def newElement_def)
  have cfg: "config ?W = Some sampleConfig" "config ?W2 = Some sampleConfig"
    by (simp_all add: setConfig_config setDynamicText_def)
  have texts: "dynamicTexts ?W = [(31, ''--''), (32, ''-''), (33, ''--'')]"
    "dynamicTexts ?W2 = [(31, ''1''), (32, ''2''), (33, ''--'')]"
    by (simp_all add: setConfig_dynamicTexts sample_initialTexts setDynamicText_def)
  have ids: "el_layerId displayD1 = 31" "el_layerId displayD2 = 32" "el_layerId displayNum = 33"
    by (simp_all add: sample_defs)
  note single = input_digit_shift [OF act(1) act(2) cfg(1),
      where d = displayNum and ?c1.0 = "CHR ''-''" and ?c2.0 = "CHR ''-''", of "''1''" "''num''"]
  note multi = input_digit_shift [OF act(1) act(2) cfg(1), of "''1''" "''d1, d2''"]
  note full = input_digit_shift [OF act(1) act(2) cfg(2), of "''3''" "''d1, d2''"]
  have c: "console ?W2 = console ?W" by (simp add: setDynamicText_def)
  show ?thesis
    using single multi full
    by (simp add: resolveDisplays_num resolveDisplays_d1_d2 texts ids readText_def orElse_def act c)
qed

subsection \<open>Highlight groups\<close>




lemma highlightAction_config [simp]: "config (highlightAction a tgt w) = config w"
  by (simp add: highlightAction_def Let_def split: option.splits)








lemma setConfig_selectedHighlights: "selectedHighlights (setConfig cfg w) = []"
  by (simp add: setConfig_def Let_def startScreenTimers_eq pushInitialTexts_eq setTimer_def
      stopClocks_eq stopScreenTimers_eq)


subsection \<open>Navigation and unresolved references\<close>

lemma navigateToScreen_eq:
  assumes "config w = Some cfg"
  shows "navigateToScreen s w =
     (let armed = filter (\<lambda>e. triggersOn e s) (filter (\<lambda>e. el_type e = ''timer'') (elements cfg));
          w3 = w\<lparr>console := console w @ [LogNavigateToScreen s],
                 timers := filter (\<lambda>t. fst t \<notin> set (screenTimerIds w)) (timers w),
                 currentScreen := Some s, activePopups := {}\<rparr>;
          w4 = applyScreenVisibility cfg s {} (selectedHighlights w) w3
      in w4\<lparr>timers := timers w3 @ newScreenTimers armed (nextTimerId w),
            nextTimerId := nextTimerId w + length armed,
            console := console w3 @ timerLogs armed s,
            screenTimerIds := [nextTimerId w ..< nextTimerId w + length armed]\<rparr>)"
  using assms
  by (simp add: navigateToScreen_def Let_def stopScreenTimers_eq startScreenTimers_eq)


lemma navigateToScreen_fields:
  assumes "config w = Some cfg"
  shows "config (navigateToScreen s w) = Some cfg"
    and "currentScreen (navigateToScreen s w) = Some s"
    and "activePopups (navigateToScreen s w) = {}"
    and "selectedHighlights (navigateToScreen s w) = selectedHighlights w"
    and "dynamicTexts (navigateToScreen s w) = dynamicTexts w"
    and "sliderValues (navigateToScreen s w) = sliderValues w"
    and "elementScreenMap (navigateToScreen s w) = elementScreenMap w"
    and "clockTimers (navigateToScreen s w) = clockTimers w"
    and "psd (navigateToScreen s w) = psd w"
    and "timers (navigateToScreen s w) =
           filter (\<lambda>t. fst t \<notin> set (screenTimerIds w)) (timers w)
           @ newScreenTimers (armedTimers cfg s) (nextTimerId w)"
    and "nextTimerId (navigateToScreen s w) = nextTimerId w + length (armedTimers cfg s)"
    and "screenTimerIds (navigateToScreen s w) =
           [nextTimerId w ..< nextTimerId w + length (armedTimers cfg s)]"
    and "console (navigateToScreen s w) =
           console w @ LogNavigateToScreen s # timerLogs (armedTimers cfg s) s"
  using assms by (simp_all add: navigateToScreen_eq Let_def armedTimers_def)

lemma navigateToScreen_no_config: "config w = None \<Longrightarrow> navigateToScreen s w = w"
  by (simp add: navigateToScreen_def)

lemma navigateToScreen_visibility:
  assumes "config w = Some cfg"
  shows "psd w = None \<Longrightarrow> batches (navigateToScreen s w) = batches w
           \<and> visibilityOverrides (navigateToScreen s w) = visibilityOverrides w
           \<and> requests (navigateToScreen s w) = requests w"
    and "psd w = Some layers \<Longrightarrow>
           batches (navigateToScreen s w)
             = batches w @ [screenVisibilityBatch cfg layers s {} (selectedHighlights w)]
           \<and> visibilityOverrides (navigateToScreen s w)
             = mergeOverrides (screenVisibilityBatch cfg layers s {} (selectedHighlights w))
                 (visibilityOverrides w)
           \<and> requests (navigateToScreen s w)
             = requests w @ [renderRequest layers
                 (mergeOverrides (screenVisibilityBatch cfg layers s {} (selectedHighlights w))
                    (visibilityOverrides w))]"
  using assms
  by (simp_all add: navigateToScreen_eq Let_def applyScreenVisibility_def setMultipleVisibility_def)


lemma setConfig_fields:
  "currentScreen (setConfig cfg w) = Some (initialScreen cfg)"
  "activePopups (setConfig cfg w) = {}"
  "sliderValues (setConfig cfg w) = []"
  "psd (setConfig cfg w) = psd w"
  by (simp_all add: setConfig_def Let_def startScreenTimers_eq pushInitialTexts_eq setTimer_def
      stopClocks_eq stopScreenTimers_eq)






subsection \<open>Screen exclusivity\<close>

lemma map_of_fold_untouched:
  assumes "\<And>e m. e \<in> set es \<Longrightarrow> map_of (f e m) x = map_of m x"
  shows "map_of (fold f es m) x = map_of m x"
  using assms by (induction es arbitrary: m) simp_all

lemma showOnPass_untouched:
  assumes "\<forall>e' \<in> set (elements cfg). el_layerId e' = x \<longrightarrow> el_showOn e' = None"
  shows "map_of (showOnPass cfg layers s ov) x = map_of ov x"
  unfolding showOnPass_def
  using assms by (intro map_of_fold_untouched) (auto simp: update_conv' split: option.splits)

lemma highlightPass_untouched:
  assumes "\<forall>e' \<in> set (elements cfg). el_layerId e' = x \<longrightarrow> el_type e' \<noteq> ''highlight''"
  shows "map_of (highlightPass cfg sel ov) x = map_of ov x"
  unfolding highlightPass_def
  using assms by (intro map_of_fold_untouched) (auto simp: update_conv')

lemma popupPass_untouched:
  assumes "\<forall>e' \<in> set (elements cfg). el_layerId e' = x \<longrightarrow> el_type e' \<noteq> ''popup''"
  shows "map_of (popupPass cfg popups ov) x = map_of ov x"
  unfolding popupPass_def
  using assms by (intro map_of_fold_untouched) (auto simp: update_conv')

lemma screenPass_decided:
  assumes e: "e \<in> set (elements cfg)" "el_type e = ''screen''" "hasLayer layers (el_layerId e)"
    and agree: "\<forall>e' \<in> set (elements cfg). el_layerId e' = el_layerId e \<and> el_type e' = ''screen''
                  \<longrightarrow> (el_name e' = Some s) = (el_name e = Some s)"
  shows "map_of (screenPass cfg layers s []) (el_layerId e) = Some (el_name e = Some s)"
proof -
  let ?scr = "filter (\<lambda>e. el_type e = ''screen'') (elements cfg)"
  let ?P = "\<lambda>e'. hasLayer layers (el_layerId e') \<and> el_layerId e' = el_layerId e"
  have m: "map_of (screenPass cfg layers s []) (el_layerId e) =
      (case find ?P (rev ?scr) of None \<Rightarrow> map_of [] (el_layerId e)
       | Some e' \<Rightarrow> Some (el_name e' = Some s))"
  proof -
    have swap: "(\<lambda>screen ov. if \<not> hasLayer layers (el_layerId screen) then ov
                   else AList.update (el_layerId screen) (el_name screen = Some s) ov)
        = (\<lambda>e' m. if hasLayer layers (el_layerId e')
                   then AList.update (el_layerId e') (el_name e' = Some s) m else m)"
      by (simp add: fun_eq_iff)
    show ?thesis
      unfolding screenPass_def swap
      by (rule map_of_fold_update[where P = "\<lambda>e'. hasLayer layers (el_layerId e')"
            and k = el_layerId and v = "\<lambda>e'. el_name e' = Some s"])
  qed
  have "e \<in> set ?scr" "?P e" using e by simp_all
  then obtain e' where f: "find ?P (rev ?scr) = Some e'"
    using find_rev_exists[of e ?scr ?P] by blast
  then have "e' \<in> set ?scr" "el_layerId e' = el_layerId e"
    using find_rev_SomeD[OF f] by simp_all
  with agree have "(el_name e' = Some s) = (el_name e = Some s)" by simp
  with m f show ?thesis by simp
qed

lemma screenVisibilityBatch_screen:
  assumes "e \<in> set (elements cfg)" "el_type e = ''screen''" "hasLayer layers (el_layerId e)"
    and "screenDecidesLayer cfg s e"
  shows "map_of (screenVisibilityBatch cfg layers s popups sel) (el_layerId e)
       = Some (el_name e = Some s)"
proof -
  from assms(4) have
    a: "\<forall>e' \<in> set (elements cfg). el_layerId e' = el_layerId e \<longrightarrow> el_showOn e' = None"
    and b: "\<forall>e' \<in> set (elements cfg). el_layerId e' = el_layerId e \<longrightarrow> el_type e' \<noteq> ''highlight''"
    and c: "\<forall>e' \<in> set (elements cfg). el_layerId e' = el_layerId e \<longrightarrow> el_type e' \<noteq> ''popup''"
    and d: "\<forall>e' \<in> set (elements cfg). el_layerId e' = el_layerId e \<and> el_type e' = ''screen''
                  \<longrightarrow> (el_name e' = Some s) = (el_name e = Some s)"
    unfolding screenDecidesLayer_def by blast+
  show ?thesis
    unfolding screenVisibilityBatch_def
    by (simp add: popupPass_untouched[OF c] highlightPass_untouched[OF b]
        showOnPass_untouched[OF a] screenPass_decided[OF assms(1-3) d])
qed

text \<open>
  C2, as amended. With a configuration loaded, \<^verbatim>\<open>navigateToScreen\<close> clears every handle
  of \<open>screenTimerIds\<close> from the pending timers before it arms the timers of the
  destination, sets the current screen, empties the popups and keeps the highlight
  selection. With a document loaded too it makes one call of \<^verbatim>\<open>setMultipleVisibility\<close>
  and one render request; in the batch a screen element whose layer is in the document,
  and whose layer no later pass rewrites, is visible exactly when its name is the
  destination. Without a document no batch is applied.
\<close>

theorem navigate_screen_exclusive:
  assumes cfg: "config w = Some cfg"
  shows "timers (navigateToScreen s w) =
           filter (\<lambda>t. fst t \<notin> set (screenTimerIds w)) (timers w)
           @ newScreenTimers (armedTimers cfg s) (nextTimerId w)
    \<and> screenTimerIds (navigateToScreen s w) =
           [nextTimerId w ..< nextTimerId w + length (armedTimers cfg s)]
    \<and> currentScreen (navigateToScreen s w) = Some s
    \<and> activePopups (navigateToScreen s w) = {}
    \<and> selectedHighlights (navigateToScreen s w) = selectedHighlights w
    \<and> (psd w = None \<longrightarrow>
          batches (navigateToScreen s w) = batches w
          \<and> visibilityOverrides (navigateToScreen s w) = visibilityOverrides w
          \<and> requests (navigateToScreen s w) = requests w)
    \<and> (\<forall>layers. psd w = Some layers \<longrightarrow>
          batches (navigateToScreen s w)
            = batches w @ [screenVisibilityBatch cfg layers s {} (selectedHighlights w)]
          \<and> visibilityOverrides (navigateToScreen s w)
            = mergeOverrides (screenVisibilityBatch cfg layers s {} (selectedHighlights w))
                (visibilityOverrides w)
          \<and> requests (navigateToScreen s w)
            = requests w @ [renderRequest layers (visibilityOverrides (navigateToScreen s w))]
          \<and> (\<forall>e \<in> set (elements cfg).
                el_type e = ''screen'' \<and> hasLayer layers (el_layerId e)
                \<and> screenDecidesLayer cfg s e \<longrightarrow>
                map_of (screenVisibilityBatch cfg layers s {} (selectedHighlights w)) (el_layerId e)
                  = Some (el_name e = Some s)))"
proof -
  have doc: "batches (navigateToScreen s w)
            = batches w @ [screenVisibilityBatch cfg layers s {} (selectedHighlights w)]
          \<and> visibilityOverrides (navigateToScreen s w)
            = mergeOverrides (screenVisibilityBatch cfg layers s {} (selectedHighlights w))
                (visibilityOverrides w)
          \<and> requests (navigateToScreen s w)
            = requests w @ [renderRequest layers (visibilityOverrides (navigateToScreen s w))]"
    if "psd w = Some layers" for layers
    using navigateToScreen_visibility(2)[OF cfg that, of s] by simp
  have scr: "map_of (screenVisibilityBatch cfg layers s {} (selectedHighlights w)) (el_layerId e)
                  = Some (el_name e = Some s)"
    if "e \<in> set (elements cfg)" "el_type e = ''screen''" "hasLayer layers (el_layerId e)"
       "screenDecidesLayer cfg s e" for e layers
    using that by (rule screenVisibilityBatch_screen)
  show ?thesis
    apply (intro conjI allI impI ballI; (elim conjE)?)
    subgoal by (rule navigateToScreen_fields[OF cfg])
    subgoal by (rule navigateToScreen_fields[OF cfg])
    subgoal by (rule navigateToScreen_fields[OF cfg])
    subgoal by (rule navigateToScreen_fields[OF cfg])
    subgoal by (rule navigateToScreen_fields[OF cfg])
    subgoal using navigateToScreen_visibility(1)[OF cfg] by blast
    subgoal using navigateToScreen_visibility(1)[OF cfg] by blast
    subgoal using navigateToScreen_visibility(1)[OF cfg] by blast
    subgoal using doc by blast
    subgoal using doc by blast
    subgoal using doc by blast
    subgoal using scr by blast
    done
qed

lemma setConfig_batches:
  "batches (setConfig cfg w) =
     batches w @ (case psd w of None \<Rightarrow> []
                  | Some layers \<Rightarrow> [screenVisibilityBatch cfg layers (initialScreen cfg) {} []])"
  by (simp add: setConfig_def Let_def startScreenTimers_eq pushInitialTexts_eq setTimer_def
      stopClocks_eq stopScreenTimers_eq applyScreenVisibility_def setMultipleVisibility_def
      split: option.splits)

lemma twoScreens_batches:
  "screenVisibilityBatch twoScreens onlyLayer20 ''b'' {} [] = [(20, True)]"
  "screenVisibilityBatch twoScreens layers10and20 ''b'' {} [] = [(10, False), (20, True)]"
  "screenVisibilityBatch twoScreensShowOn layers10and20 ''a'' {} [] = [(10, False), (20, False)]"
  by (simp_all add: screenVisibilityBatch_def screenPass_def showOnPass_def highlightPass_def
      popupPass_def twoScreens_def twoScreensShowOn_def newElement_def hasLayer_def
      onlyLayer20_def layers10and20_def)

text \<open>
  The claim C2 as stated fails behind each guard of the code: without a configuration
  nothing is set; without a document no batch is emitted; a screen element whose layer
  is not in the document is skipped; and the \<^verbatim>\<open>showOn\<close> pass rewrites the override of a
  screen element that carries \<^verbatim>\<open>showOn\<close>.
\<close>

theorem navigate_screen_exclusive_counterexample:
  "currentScreen (navigateToScreen ''b'' initialWorld) = None
   \<and> batches (navigateToScreen ''b'' (setConfig twoScreens initialWorld)) = []
   \<and> map_of (last (batches (navigateToScreen ''b''
         (setConfig twoScreens (loadPsd onlyLayer20 initialWorld))))) 10 = None
   \<and> map_of (last (batches (navigateToScreen ''a''
         (setConfig twoScreensShowOn (loadPsd layers10and20 initialWorld))))) 10 = Some False"
proof -
  have 1: "currentScreen (navigateToScreen ''b'' initialWorld) = None"
    by (simp add: navigateToScreen_def initialWorld_def)
  have 2: "batches (navigateToScreen ''b'' (setConfig twoScreens initialWorld)) = []"
    using navigateToScreen_visibility(1)[OF setConfig_config, of twoScreens initialWorld "''b''"]
    by (simp add: setConfig_fields setConfig_batches initialWorld_def)
  have 3: "map_of (last (batches (navigateToScreen ''b''
         (setConfig twoScreens (loadPsd onlyLayer20 initialWorld))))) 10 = None"
    using navigateToScreen_visibility(2)[OF setConfig_config,
        of twoScreens "loadPsd onlyLayer20 initialWorld" onlyLayer20 "''b''"]
    by (simp add: setConfig_fields setConfig_selectedHighlights loadPsd_def twoScreens_batches)
  have 4: "map_of (last (batches (navigateToScreen ''a''
         (setConfig twoScreensShowOn (loadPsd layers10and20 initialWorld))))) 10 = Some False"
    using navigateToScreen_visibility(2)[OF setConfig_config,
        of twoScreensShowOn "loadPsd layers10and20 initialWorld" layers10and20 "''a''"]
    by (simp add: setConfig_fields setConfig_selectedHighlights loadPsd_def twoScreens_batches)
  from 1 2 3 4 show ?thesis by simp
qed

theorem navigate_screen_exclusive_witness:
  "config (setConfig twoScreens (loadPsd layers10and20 initialWorld)) = Some twoScreens
   \<and> psd (setConfig twoScreens (loadPsd layers10and20 initialWorld)) = Some layers10and20
   \<and> hasLayer layers10and20 10
   \<and> screenDecidesLayer twoScreens ''b'' ((newElement 10 ''screen'')\<lparr>el_name := Some ''a''\<rparr>)
   \<and> currentScreen (navigateToScreen ''b''
        (setConfig twoScreens (loadPsd layers10and20 initialWorld))) = Some ''b''
   \<and> activePopups (navigateToScreen ''b''
        (setConfig twoScreens (loadPsd layers10and20 initialWorld))) = {}
   \<and> batches (navigateToScreen ''b'' (setConfig twoScreens (loadPsd layers10and20 initialWorld)))
       = batches (setConfig twoScreens (loadPsd layers10and20 initialWorld))
         @ [[(10, False), (20, True)]]
   \<and> map_of (last (batches (navigateToScreen ''b''
         (setConfig twoScreens (loadPsd layers10and20 initialWorld))))) 10 = Some False
   \<and> map_of (last (batches (navigateToScreen ''b''
         (setConfig twoScreens (loadPsd layers10and20 initialWorld))))) 20 = Some True"
proof -
  let ?W = "setConfig twoScreens (loadPsd layers10and20 initialWorld)"
  have c: "config ?W = Some twoScreens" by (rule setConfig_config)
  have p: "psd ?W = Some layers10and20" by (simp add: setConfig_fields loadPsd_def)
  have h: "selectedHighlights ?W = []" by (rule setConfig_selectedHighlights)
  have d: "hasLayer layers10and20 10"
    "screenDecidesLayer twoScreens ''b'' ((newElement 10 ''screen'')\<lparr>el_name := Some ''a''\<rparr>)"
    by (simp_all add: hasLayer_def layers10and20_def screenDecidesLayer_def
        twoScreens_def newElement_def)
  show ?thesis
    using navigate_screen_exclusive [OF c, of "''b''"] c p d
    by (simp add: h twoScreens_batches)
qed

subsection \<open>Screen timers\<close>

lemma isScreenTimer_iff: "isScreenTimer t \<longleftrightarrow> (\<exists>elem. snd (snd t) = ScreenTimerTask elem)"
  by (cases t rule: isScreenTimer.cases) auto

lemma quietI:
  assumes "config w' = config w" "screenTimerIds w' = screenTimerIds w"
    "currentScreen w' = currentScreen w" "navigations w' = navigations w"
    "nextTimerId w \<le> nextTimerId w'"
    "timers w' = filter P (timers w) @ extra" "distinct (map fst extra)"
    "\<And>t. t \<in> set extra \<Longrightarrow> nextTimerId w \<le> fst t \<and> fst t < nextTimerId w' \<and> \<not> isScreenTimer t"
  shows "quiet w w'"
  unfolding quiet_def using assms by blast

lemma quiet_view:
  assumes "timerView w' = timerView w"
  shows "quiet w w'"
proof (rule quietI[where P = "\<lambda>_. True" and extra = "[]"])
qed (use assms in \<open>simp_all add: timerView_def\<close>)

lemma quiet_then_view:
  assumes "quiet w0 w" "timerView w' = timerView w"
  shows "quiet w0 w'"
  using assms unfolding quiet_def timerView_def by simp

lemma quiet_trans:
  assumes "quiet w w1" "quiet w1 w2"
  shows "quiet w w2"
proof -
  from assms(1) obtain P1 e1 where 1: "timers w1 = filter P1 (timers w) @ e1"
    "distinct (map fst e1)"
    "\<forall>t \<in> set e1. nextTimerId w \<le> fst t \<and> fst t < nextTimerId w1 \<and> \<not> isScreenTimer t"
    and s1: "config w1 = config w" "screenTimerIds w1 = screenTimerIds w"
      "currentScreen w1 = currentScreen w" "navigations w1 = navigations w"
      "nextTimerId w \<le> nextTimerId w1"
    unfolding quiet_def by blast
  from assms(2) obtain P2 e2 where 2: "timers w2 = filter P2 (timers w1) @ e2"
    "distinct (map fst e2)"
    "\<forall>t \<in> set e2. nextTimerId w1 \<le> fst t \<and> fst t < nextTimerId w2 \<and> \<not> isScreenTimer t"
    and s2: "config w2 = config w1" "screenTimerIds w2 = screenTimerIds w1"
      "currentScreen w2 = currentScreen w1" "navigations w2 = navigations w1"
      "nextTimerId w1 \<le> nextTimerId w2"
    unfolding quiet_def by blast
  have t: "timers w2 = filter (\<lambda>t. P1 t \<and> P2 t) (timers w) @ (filter P2 e1 @ e2)"
    by (simp add: 1 2)
  have disj: "fst ` set (filter P2 e1) \<inter> fst ` set e2 = {}"
  proof -
    have "x < nextTimerId w1" if "x \<in> fst ` set (filter P2 e1)" for x
      using that 1(3) by auto
    moreover have "nextTimerId w1 \<le> x" if "x \<in> fst ` set e2" for x
      using that 2(3) by auto
    ultimately show ?thesis by fastforce
  qed
  have d: "distinct (map fst (filter P2 e1 @ e2))"
    using 1(2) 2(2) disj by (simp add: distinct_map_filter)
  have r: "nextTimerId w \<le> fst t \<and> fst t < nextTimerId w2 \<and> \<not> isScreenTimer t"
    if "t \<in> set (filter P2 e1 @ e2)" for t
  proof -
    from that consider "t \<in> set e1" | "t \<in> set e2" by auto
    then show ?thesis
    proof cases
      case 1
      with \<open>\<forall>t \<in> set e1. _\<close> s2(5) show ?thesis by fastforce
    next
      case 2
      with \<open>\<forall>t \<in> set e2. _\<close> s1(5) show ?thesis by fastforce
    qed
  qed
  show ?thesis
    by (rule quietI[OF _ _ _ _ _ t d r]) (use s1 s2 in simp_all)
qed

lemma quiet_timersTracked:
  assumes inv: "timersTracked w" and q: "quiet w w'"
  shows "timersTracked w'"
proof -
  from q obtain P extra where t: "timers w' = filter P (timers w) @ extra"
    and d2: "distinct (map fst extra)"
    and ex: "\<forall>t \<in> set extra. nextTimerId w \<le> fst t \<and> fst t < nextTimerId w' \<and> \<not> isScreenTimer t"
    and same: "screenTimerIds w' = screenTimerIds w" "currentScreen w' = currentScreen w"
      "nextTimerId w \<le> nextTimerId w'"
    unfolding quiet_def by blast
  from inv have d: "distinct (map fst (timers w))"
    and b: "\<forall>t \<in> set (timers w). fst t < nextTimerId w"
    and s: "\<forall>t \<in> set (timers w). \<forall>elem. snd (snd t) = ScreenTimerTask elem \<longrightarrow>
            fst t \<in> set (screenTimerIds w) \<and> (\<exists>s. currentScreen w = Some s \<and> triggersOn elem s)"
    unfolding timersTracked_def by blast+
  have d1: "distinct (map fst (filter P (timers w)))"
    using d by (simp add: distinct_map_filter)
  have old: "x < nextTimerId w" if "x \<in> fst ` set (filter P (timers w))" for x
  proof -
    from that obtain t where "t \<in> set (timers w)" "fst t = x" by auto
    with b show ?thesis by auto
  qed
  have new: "nextTimerId w \<le> x \<and> x < nextTimerId w'" if "x \<in> fst ` set extra" for x
    using that ex by auto
  have d3: "fst ` set (filter P (timers w)) \<inter> fst ` set extra = {}"
    using old new by fastforce
  have "distinct (map fst (timers w'))"
    using d1 d2 d3 by (simp add: t)
  moreover have "\<forall>t \<in> set (timers w'). fst t < nextTimerId w'"
  proof
    fix t assume "t \<in> set (timers w')"
    then consider "fst t \<in> fst ` set (filter P (timers w))" | "fst t \<in> fst ` set extra"
      unfolding t by auto
    then show "fst t < nextTimerId w'"
    proof cases
      case 1
      with old[of "fst t"] same(3) show ?thesis by simp
    next
      case 2
      with new[of "fst t"] show ?thesis by simp
    qed
  qed
  moreover have "\<forall>t \<in> set (timers w'). \<forall>elem. snd (snd t) = ScreenTimerTask elem \<longrightarrow>
            fst t \<in> set (screenTimerIds w') \<and> (\<exists>s. currentScreen w' = Some s \<and> triggersOn elem s)"
  proof (intro ballI allI impI)
    fix t elem assume t_in: "t \<in> set (timers w')" and scr: "snd (snd t) = ScreenTimerTask elem"
    then have "isScreenTimer t" by (auto simp: isScreenTimer_iff)
    with ex have "t \<notin> set extra" by blast
    with t_in have "t \<in> set (timers w)" unfolding t by auto
    with s scr same show "fst t \<in> set (screenTimerIds w')
        \<and> (\<exists>s. currentScreen w' = Some s \<and> triggersOn elem s)"
      by simp
  qed
  ultimately show ?thesis unfolding timersTracked_def by blast
qed

subsection \<open>Steps that leave the timer view alone\<close>

lemma timerView_fold:
  assumes "\<And>x w. timerView (f x w) = timerView w"
  shows "timerView (fold f xs w) = timerView w"
  using assms by (induction xs arbitrary: w) simp_all

lemma timerView_log [simp]:
  "\<not> isNavigationLog entry \<Longrightarrow> timerView (w\<lparr>console := console w @ [entry]\<rparr>) = timerView w"
  by (simp add: timerView_def navigations_def)

lemma timerView_simple [simp]:
  "timerView (setSliderValue i v w) = timerView w"
  "timerView (setDynamicText i text w) = timerView w"
  "timerView (pushLayerText i text w) = timerView w"
  "timerView (recomposite w) = timerView w"
  "timerView (setMultipleVisibility b w) = timerView w"
  "timerView (applyScreenVisibility cfg s p h w) = timerView w"
  "timerView (toggleLayerVisibility i w) = timerView w"
  "timerView (loadPsd layers w) = timerView w"
  "timerView (clearPsd w) = timerView w"
  "timerView (w\<lparr>activePopups := ps\<rparr>) = timerView w"
  "timerView (w\<lparr>selectedHighlights := sel\<rparr>) = timerView w"
  by (simp_all add: timerView_def navigations_def setSliderValue_def setDynamicText_def
      pushLayerText_def toggleLayerVisibility_def loadPsd_def clearPsd_def Let_def
      split: option.splits)

lemma timerView_clockTick [simp]: "timerView (clockTick elem hh mm ss w) = timerView w"
  by (simp add: clockTick_def Let_def)

lemma timerView_pushDisplayTexts [simp]: "timerView (pushDisplayTexts ds w) = timerView w"
  by (simp add: pushDisplayTexts_def Let_def timerView_fold)

lemma timerView_inputDigit [simp]: "timerView (inputDigit a digit w) = timerView w"
  by (simp add: inputDigit_def inputDigitSingle_def inputDigitMulti_def Let_def timerView_fold
      split: option.splits)

lemma timerView_clearInput [simp]: "timerView (clearInput a w) = timerView w"
  by (simp add: clearInput_def Let_def timerView_fold split: option.splits)

lemma timerView_highlightAction [simp]: "timerView (highlightAction a tgt w) = timerView w"
  by (simp add: highlightAction_def Let_def split: option.splits)

lemma timerView_showPopup [simp]: "timerView (showPopup tgt w) = timerView w"
  by (simp add: showPopup_def Let_def split: option.splits)

subsection \<open>Steps that clear or add timers without navigating\<close>

lemma quiet_refl: "quiet w w"
  by (rule quiet_view) simp

lemma quiet_filter:
  assumes "w' = w\<lparr>timers := filter P (timers w)\<rparr>"
  shows "quiet w w'"
  by (rule quietI[where P = P and extra = "[]"]) (simp_all add: assms navigations_def)

lemma quiet_clearTimer: "quiet w (clearTimer h w)"
  by (rule quiet_filter) (simp add: clearTimer_def)

lemma quiet_stopScreenTimers: "quiet w ((stopClocks w))"
proof -
  have "quiet w (w\<lparr>timers := filter (\<lambda>t. fst t \<notin> snd ` set (clockTimers w)) (timers w)\<rparr>)"
    by (rule quiet_filter) simp
  moreover have "timerView (stopClocks w)
      = timerView (w\<lparr>timers := filter (\<lambda>t. fst t \<notin> snd ` set (clockTimers w)) (timers w)\<rparr>)"
    by (simp add: stopClocks_eq timerView_def navigations_def)
  ultimately show ?thesis by (rule quiet_then_view)
qed

lemma startClocksLoop_eq:
  "startClocksLoop es m w =
     (fold (\<lambda>(k, e). AList.update (el_layerId e) k) (enumerate (nextTimerId w) es) m,
      w\<lparr>timers := timers w @ map (\<lambda>(k, e). (k, 1000, ClockTickTask e)) (enumerate (nextTimerId w) es),
        nextTimerId := nextTimerId w + length es\<rparr>)"
  by (induction es arbitrary: m w) (simp_all add: setTimer_def)

lemma clockTimers_entries:
  "map fst (map (\<lambda>(k, e). (k, 1000 :: int, ClockTickTask e)) (enumerate n es)) = [n ..< n + length es]"
proof -
  have "map fst (map (\<lambda>(k, e). (k, 1000 :: int, ClockTickTask e)) xs) = map fst xs"
    for xs :: "(nat \<times> InteractionElement) list"
    by (induction xs) auto
  then show ?thesis by (simp only: map_fst_enumerate)
qed

lemma clockTimers_not_screen:
  "t \<in> set (map (\<lambda>(k, e). (k, 1000 :: int, ClockTickTask e)) xs) \<Longrightarrow> \<not> isScreenTimer t"
  by (induction xs) auto

lemma quiet_add_clocks:
  assumes "timers w' = timers w @ map (\<lambda>(k, e). (k, 1000 :: int, ClockTickTask e)) (enumerate (nextTimerId w) es)"
    and "nextTimerId w' = nextTimerId w + length es"
    and "config w' = config w" "screenTimerIds w' = screenTimerIds w"
    and "currentScreen w' = currentScreen w" "console w' = console w"
  shows "quiet w w'"
proof (rule quietI[where P = "\<lambda>_. True"
      and extra = "map (\<lambda>(k, e). (k, 1000 :: int, ClockTickTask e)) (enumerate (nextTimerId w) es)"])
  let ?extra = "map (\<lambda>(k, e). (k, 1000 :: int, ClockTickTask e)) (enumerate (nextTimerId w) es)"
  show "distinct (map fst ?extra)" unfolding clockTimers_entries by simp
  show "nextTimerId w \<le> fst t \<and> fst t < nextTimerId w' \<and> \<not> isScreenTimer t"
    if "t \<in> set ?extra" for t
  proof -
    from that have "fst t \<in> set (map fst ?extra)" by (metis imageI list.set_map)
    then have "nextTimerId w \<le> fst t \<and> fst t < nextTimerId w + length es"
      unfolding clockTimers_entries by simp
    with clockTimers_not_screen[OF that] assms(2) show ?thesis by simp
  qed
  show "timers w' = filter (\<lambda>_. True) (timers w) @ ?extra" using assms(1) by simp
  show "navigations w' = navigations w" using assms(6) by (simp add: navigations_def)
  show "nextTimerId w \<le> nextTimerId w'" using assms(2) by simp
qed (use assms in simp_all)

lemma quiet_startClocks: "quiet w (startClocks w)"
proof (cases "config w")
  case None
  then show ?thesis by (simp add: startClocks_def quiet_refl)
next
  case (Some cfg)
  show ?thesis
    by (rule quiet_add_clocks[where es = "filter (\<lambda>e. el_type e = ''clock'') (elements cfg)"])
       (simp_all add: Some startClocks_def startClocksLoop_eq)
qed

subsection \<open>Steps that clear the screen timers and arm new ones\<close>

lemma newScreenTimers_fst: "map fst (newScreenTimers es n) = [n ..< n + length es]"
proof -
  have "map fst (map (\<lambda>(k, e). (k, timerDelay e, ScreenTimerTask e)) xs) = map fst xs"
    for xs :: "(nat \<times> InteractionElement) list"
    by (induction xs) auto
  then show ?thesis unfolding newScreenTimers_def by (simp only: map_fst_enumerate)
qed

lemma newScreenTimers_task:
  assumes "t \<in> set (newScreenTimers es n)"
  shows "\<exists>e \<in> set es. snd (snd t) = ScreenTimerTask e"
proof -
  from assms obtain x where x: "x \<in> set (enumerate n es)"
    "t = (case x of (k, e) \<Rightarrow> (k, timerDelay e, ScreenTimerTask e))"
    unfolding newScreenTimers_def by auto
  then have "snd x \<in> set (map snd (enumerate n es))" by (metis imageI list.set_map)
  then have "snd x \<in> set es" by (simp only: map_snd_enumerate)
  moreover from x(2) have "snd (snd t) = ScreenTimerTask (snd x)" by (cases x) simp
  ultimately show ?thesis by blast
qed

lemma newScreenTimers_handle:
  "t \<in> set (newScreenTimers es n) \<Longrightarrow> n \<le> fst t \<and> fst t < n + length es"
proof -
  assume "t \<in> set (newScreenTimers es n)"
  then have "fst t \<in> set (map fst (newScreenTimers es n))" by (metis imageI list.set_map)
  then show ?thesis unfolding newScreenTimers_fst by simp
qed

lemma rearmed_timersTracked:
  assumes inv: "timersTracked w" and r: "rearmed w w'"
  shows "timersTracked w'"
proof -
  from r obtain P extra es n where
    t: "timers w' = filter P (timers w) @ extra @ newScreenTimers es n"
    and gone: "\<forall>t \<in> set (timers w). isScreenTimer t \<longrightarrow> \<not> P t"
    and d2: "distinct (map fst extra)"
    and ex: "\<forall>t \<in> set extra. nextTimerId w \<le> fst t \<and> fst t < n \<and> \<not> isScreenTimer t"
    and n: "nextTimerId w \<le> n" "nextTimerId w' = n + length es"
    and ids: "screenTimerIds w' = [n ..< n + length es]"
    and cur: "\<forall>e \<in> set es. \<exists>s. currentScreen w' = Some s \<and> triggersOn e s"
    unfolding rearmed_def by blast
  from inv have d: "distinct (map fst (timers w))"
    and b: "\<forall>t \<in> set (timers w). fst t < nextTimerId w"
    unfolding timersTracked_def by blast+
  have d1: "distinct (map fst (filter P (timers w)))"
    using d by (simp add: distinct_map_filter)
  have old: "x < nextTimerId w" if "x \<in> fst ` set (filter P (timers w))" for x
  proof -
    from that obtain t where "t \<in> set (timers w)" "fst t = x" by auto
    with b show ?thesis by auto
  qed
  have mid: "nextTimerId w \<le> x \<and> x < n" if "x \<in> fst ` set extra" for x
    using that ex by auto
  have new: "n \<le> x \<and> x < n + length es" if "x \<in> fst ` set (newScreenTimers es n)" for x
    using that newScreenTimers_handle by auto
  have d3: "distinct (map fst (newScreenTimers es n))"
    unfolding newScreenTimers_fst by simp
  have i1: "fst ` set (filter P (timers w)) \<inter> fst ` set extra = {}"
    using old mid by fastforce
  have i2: "fst ` set (filter P (timers w)) \<inter> fst ` set (newScreenTimers es n) = {}"
    using old new n(1) by fastforce
  have i3: "fst ` set extra \<inter> fst ` set (newScreenTimers es n) = {}"
    using mid new by fastforce
  have "distinct (map fst (timers w'))"
    unfolding t using d1 d2 d3 i1 i2 i3 by (simp add: Int_Un_distrib)
  moreover have "\<forall>t \<in> set (timers w'). fst t < nextTimerId w'"
  proof
    fix t assume "t \<in> set (timers w')"
    then consider "fst t \<in> fst ` set (filter P (timers w))" | "fst t \<in> fst ` set extra"
      | "fst t \<in> fst ` set (newScreenTimers es n)"
      unfolding t by auto
    then show "fst t < nextTimerId w'"
    proof cases
      case 1
      with old[of "fst t"] n show ?thesis by simp
    next
      case 2
      with mid[of "fst t"] n show ?thesis by simp
    next
      case 3
      with new[of "fst t"] n show ?thesis by simp
    qed
  qed
  moreover have "\<forall>t \<in> set (timers w'). \<forall>elem. snd (snd t) = ScreenTimerTask elem \<longrightarrow>
            fst t \<in> set (screenTimerIds w') \<and> (\<exists>s. currentScreen w' = Some s \<and> triggersOn elem s)"
  proof (intro ballI allI impI)
    fix t elem assume t_in: "t \<in> set (timers w')" and scr: "snd (snd t) = ScreenTimerTask elem"
    then have st: "isScreenTimer t" by (auto simp: isScreenTimer_iff)
    with ex have "t \<notin> set extra" by blast
    moreover from st gone have "t \<notin> set (filter P (timers w))" by auto
    ultimately have tn: "t \<in> set (newScreenTimers es n)" using t_in unfolding t by auto
    from newScreenTimers_task[OF tn] scr have "elem \<in> set es" by auto
    with cur have "\<exists>s. currentScreen w' = Some s \<and> triggersOn elem s" by blast
    moreover from newScreenTimers_handle[OF tn] have "fst t \<in> set (screenTimerIds w')"
      unfolding ids by simp
    ultimately show "fst t \<in> set (screenTimerIds w')
        \<and> (\<exists>s. currentScreen w' = Some s \<and> triggersOn elem s)"
      by simp
  qed
  ultimately show ?thesis unfolding timersTracked_def by blast
qed

lemma rearmed_screenTimersDead:
  assumes "rearmed w w'"
  shows "screenTimersDead w w'"
proof -
  from assms obtain P extra es n where
    t: "timers w' = filter P (timers w) @ extra @ newScreenTimers es n"
    and gone: "\<forall>t \<in> set (timers w). isScreenTimer t \<longrightarrow> \<not> P t"
    and ex: "\<forall>t \<in> set extra. nextTimerId w \<le> fst t \<and> fst t < n \<and> \<not> isScreenTimer t"
    and n: "nextTimerId w \<le> n"
    unfolding rearmed_def by blast
  show ?thesis
    unfolding screenTimersDead_def
  proof
    fix x assume "x \<in> set (timers w')"
    then consider "x \<in> set (filter P (timers w))" | "x \<in> set extra"
      | "x \<in> set (newScreenTimers es n)"
      unfolding t by auto
    then show "(x \<in> set (timers w) \<and> \<not> isScreenTimer x) \<or> nextTimerId w \<le> fst x"
    proof cases
      case 1
      with gone show ?thesis by auto
    next
      case 2
      with ex show ?thesis by blast
    next
      case 3
      from newScreenTimers_handle[OF 3] n show ?thesis by simp
    qed
  qed
qed

lemma screenTimersDead_handlesFresh:
  "screenTimersDead w w' \<Longrightarrow> nextTimerId w \<le> nextTimerId w' \<Longrightarrow> handlesFresh w w'"
  unfolding screenTimersDead_def handlesFresh_def by blast

lemma rearmed_nextTimerId: "rearmed w w' \<Longrightarrow> nextTimerId w \<le> nextTimerId w'"
  unfolding rearmed_def by auto

lemma quiet_handlesFresh:
  assumes "quiet w w'"
  shows "handlesFresh w w'"
proof -
  from assms obtain P extra where t: "timers w' = filter P (timers w) @ extra"
    and ex: "\<forall>t \<in> set extra. nextTimerId w \<le> fst t \<and> fst t < nextTimerId w' \<and> \<not> isScreenTimer t"
    and n: "nextTimerId w \<le> nextTimerId w'"
    unfolding quiet_def by blast
  have "t \<in> set (timers w) \<or> nextTimerId w \<le> fst t" if "t \<in> set (timers w')" for t
    using that ex unfolding t by auto
  with n show ?thesis unfolding handlesFresh_def by blast
qed

lemma handlesFresh_trans:
  assumes "handlesFresh w w1" "handlesFresh w1 w2"
  shows "handlesFresh w w2"
  using assms unfolding handlesFresh_def by (meson le_trans)

lemma quiet_then_dead:
  assumes q: "quiet w w1" and d: "screenTimersDead w1 w2"
  shows "screenTimersDead w w2"
proof -
  from q obtain P extra where t: "timers w1 = filter P (timers w) @ extra"
    and ex: "\<forall>t \<in> set extra. nextTimerId w \<le> fst t \<and> fst t < nextTimerId w1 \<and> \<not> isScreenTimer t"
    and n: "nextTimerId w \<le> nextTimerId w1"
    unfolding quiet_def by blast
  show ?thesis
    unfolding screenTimersDead_def
  proof
    fix x assume "x \<in> set (timers w2)"
    with d consider "x \<in> set (timers w1)" "\<not> isScreenTimer x" | "nextTimerId w1 \<le> fst x"
      unfolding screenTimersDead_def by blast
    then show "(x \<in> set (timers w) \<and> \<not> isScreenTimer x) \<or> nextTimerId w \<le> fst x"
    proof cases
      case 1
      then show ?thesis using ex unfolding t by auto
    next
      case 2
      with n show ?thesis by simp
    qed
  qed
qed

lemma rearmedI:
  assumes "timers w' = filter P (timers w) @ extra @ newScreenTimers es n"
    "\<And>t. t \<in> set (timers w) \<Longrightarrow> isScreenTimer t \<Longrightarrow> \<not> P t"
    "distinct (map fst extra)"
    "\<And>t. t \<in> set extra \<Longrightarrow> nextTimerId w \<le> fst t \<and> fst t < n \<and> \<not> isScreenTimer t"
    "nextTimerId w \<le> n" "nextTimerId w' = n + length es"
    "screenTimerIds w' = [n ..< n + length es]"
    "\<And>e. e \<in> set es \<Longrightarrow> \<exists>s. currentScreen w' = Some s \<and> triggersOn e s"
  shows "rearmed w w'"
  unfolding rearmed_def using assms by blast

lemma tracked_screen_timer:
  "timersTracked w \<Longrightarrow> t \<in> set (timers w) \<Longrightarrow> isScreenTimer t \<Longrightarrow> fst t \<in> set (screenTimerIds w)"
  unfolding timersTracked_def by (auto simp: isScreenTimer_iff)

lemma timerLogs_navigations [simp]: "filter isNavigationLog (timerLogs es s) = []"
  by (induction es) (simp_all add: timerLogs_def)

lemma navigateToScreen_navigations:
  "config w = Some cfg \<Longrightarrow> navigations (navigateToScreen s w) = Suc (navigations w)"
  by (simp add: navigations_def navigateToScreen_fields)

lemma armedTimers_triggersOn: "e \<in> set (armedTimers cfg s) \<Longrightarrow> triggersOn e s"
  by (simp add: armedTimers_def)

lemma navigateToScreen_rearmed:
  assumes inv: "timersTracked w" and cfg: "config w = Some cfg"
  shows "rearmed w (navigateToScreen s w)"
proof (rule rearmedI[where P = "\<lambda>t. fst t \<notin> set (screenTimerIds w)" and extra = "[]"
      and es = "armedTimers cfg s" and n = "nextTimerId w"])
  show "\<not> fst t \<notin> set (screenTimerIds w)" if "t \<in> set (timers w)" "isScreenTimer t" for t
    using tracked_screen_timer[OF inv that] by simp
  show "\<exists>s'. currentScreen (navigateToScreen s w) = Some s' \<and> triggersOn e s'"
    if "e \<in> set (armedTimers cfg s)" for e
    using armedTimers_triggersOn[OF that] by (simp add: navigateToScreen_fields[OF cfg])
qed (simp_all add: navigateToScreen_fields[OF cfg])

lemma setConfig_timerView:
  "timers (setConfig cfg w) =
     filter (\<lambda>t. fst t \<notin> snd ` set (clockTimers w) \<and> fst t \<notin> set (screenTimerIds w)) (timers w)
     @ (if filter (\<lambda>e. el_type e = ''clock'') (elements cfg) \<noteq> []
        then [(nextTimerId w, 100, StartClocksTask)] else [])
     @ newScreenTimers (armedTimers cfg (initialScreen cfg))
         (nextTimerId w + (if filter (\<lambda>e. el_type e = ''clock'') (elements cfg) \<noteq> [] then 1 else 0))"
  "nextTimerId (setConfig cfg w) =
     nextTimerId w + (if filter (\<lambda>e. el_type e = ''clock'') (elements cfg) \<noteq> [] then 1 else 0)
     + length (armedTimers cfg (initialScreen cfg))"
  "screenTimerIds (setConfig cfg w) =
     [nextTimerId w + (if filter (\<lambda>e. el_type e = ''clock'') (elements cfg) \<noteq> [] then 1 else 0)
      ..< nextTimerId w + (if filter (\<lambda>e. el_type e = ''clock'') (elements cfg) \<noteq> [] then 1 else 0)
          + length (armedTimers cfg (initialScreen cfg))]"
  "console (setConfig cfg w) =
     console w @ LogSetConfig (screens cfg) (initialScreen cfg) (length (elements cfg))
       # timerLogs (armedTimers cfg (initialScreen cfg)) (initialScreen cfg)"
  by (simp_all add: setConfig_def Let_def startScreenTimers_eq pushInitialTexts_eq setTimer_def
      stopClocks_eq stopScreenTimers_eq armedTimers_def)

lemma setConfig_navigations: "navigations (setConfig cfg w) = navigations w"
  by (simp add: navigations_def setConfig_timerView)

lemma setConfig_rearmed:
  assumes inv: "timersTracked w"
  shows "rearmed w (setConfig cfg w)"
proof (rule rearmedI[where
      P = "\<lambda>t. fst t \<notin> snd ` set (clockTimers w) \<and> fst t \<notin> set (screenTimerIds w)"
      and extra = "if filter (\<lambda>e. el_type e = ''clock'') (elements cfg) \<noteq> []
              then [(nextTimerId w, 100, StartClocksTask)] else []"
      and es = "armedTimers cfg (initialScreen cfg)"
      and n = "nextTimerId w
              + (if filter (\<lambda>e. el_type e = ''clock'') (elements cfg) \<noteq> [] then 1 else 0)"])
  show "\<not> (fst t \<notin> snd ` set (clockTimers w) \<and> fst t \<notin> set (screenTimerIds w))"
    if "t \<in> set (timers w)" "isScreenTimer t" for t
    using tracked_screen_timer[OF inv that] by simp
  show "\<exists>s'. currentScreen (setConfig cfg w) = Some s' \<and> triggersOn e s'"
    if "e \<in> set (armedTimers cfg (initialScreen cfg))" for e
    using armedTimers_triggersOn[OF that] by (simp add: setConfig_fields)
  show "nextTimerId w \<le> fst t
      \<and> fst t < nextTimerId w
          + (if filter (\<lambda>e. el_type e = ''clock'') (elements cfg) \<noteq> [] then 1 else 0)
      \<and> \<not> isScreenTimer t"
    if "t \<in> set (if filter (\<lambda>e. el_type e = ''clock'') (elements cfg) \<noteq> []
              then [(nextTimerId w, 100, StartClocksTask)] else [])" for t
    using that by (auto split: if_splits)
qed (simp_all add: setConfig_timerView)

lemma clear_timerView:
  "timers (clear w) =
     filter (\<lambda>t. fst t \<notin> snd ` set (clockTimers w) \<and> fst t \<notin> set (screenTimerIds w)) (timers w)"
  "nextTimerId (clear w) = nextTimerId w" "screenTimerIds (clear w) = []"
  "console (clear w) = console w"
  by (simp_all add: clear_def Let_def stopClocks_eq stopScreenTimers_eq)

lemma clear_rearmed:
  assumes inv: "timersTracked w"
  shows "rearmed w (clear w)"
proof (rule rearmedI[where
      P = "\<lambda>t. fst t \<notin> snd ` set (clockTimers w) \<and> fst t \<notin> set (screenTimerIds w)"
      and extra = "[]" and es = "[]" and n = "nextTimerId w"])
  show "\<not> (fst t \<notin> snd ` set (clockTimers w) \<and> fst t \<notin> set (screenTimerIds w))"
    if "t \<in> set (timers w)" "isScreenTimer t" for t
    using tracked_screen_timer[OF inv that] by simp
qed (simp_all add: clear_timerView newScreenTimers_def)

lemma stepShape_quiet: "quiet w w' \<Longrightarrow> stepShape w w'"
  by (simp add: stepShape_def)

lemma stepShape_navigate:
  assumes "timersTracked w" "quiet w w1"
  shows "stepShape w (navigateToScreen s w1)"
proof (cases "config w1")
  case None
  with assms(2) show ?thesis by (simp add: navigateToScreen_no_config stepShape_quiet)
next
  case (Some cfg)
  from quiet_timersTracked[OF assms] have "timersTracked w1" .
  from navigateToScreen_rearmed[OF this Some] assms(2) show ?thesis
    unfolding stepShape_def by blast
qed

lemma stepShape_view:
  assumes "quiet w w1" "timerView w' = timerView w1"
  shows "stepShape w w'"
  using quiet_then_view[OF assms] by (rule stepShape_quiet)

lemma stepShape_navigateConditional:
  assumes "timersTracked w" "quiet w w1"
  shows "stepShape w (navigateConditional tgts w1)"
  using assms by (simp add: navigateConditional_def Let_def stepShape_navigate stepShape_quiet)

lemma stepShape_hidePopup:
  assumes "timersTracked w" "quiet w w1"
  shows "stepShape w (hidePopup a w1)"
proof -
  let ?w2 = "w1\<lparr>activePopups := {}\<rparr>"
  have q: "quiet w ?w2"
    using assms(2) by (rule quiet_then_view) simp
  have v: "stepShape w (applyScreenVisibility cfg s p h ?w2)" for cfg s p h
    by (rule stepShape_view[OF q]) simp
  show ?thesis
    unfolding hidePopup_def Let_def
    by (simp add: stepShape_navigate[OF assms(1) q] stepShape_quiet[OF q] v split: option.splits)
qed

lemma stepShape_branches:
  assumes inv: "timersTracked w" and q: "quiet w w1"
  shows "stepShape w
     (if el_action a = Some ''navigate'' \<and> truthy (el_target a)
        then navigateToScreen (orElse (el_target a) []) w1
      else if el_action a = Some ''navigate_conditional'' \<and> el_targets a \<noteq> None
        then (case el_targets a of None \<Rightarrow> w1 | Some tgts \<Rightarrow> navigateConditional tgts w1)
      else if el_action a = Some ''input_digit'' \<and> el_value a \<noteq> None
        then inputDigit a (nullish (el_value a) []) w1
      else if (el_action a = Some ''show_highlight''
               \<or> el_action a = Some ''toggle_highlight'') \<and> truthy (el_target a)
        then highlightAction a (orElse (el_target a) []) w1
      else if el_action a = Some ''show_popup'' \<and> truthy (el_target a)
        then showPopup (orElse (el_target a) []) w1
      else if el_action a = Some ''hide_popup''
              \<or> el_action a = Some ''navigate_from_popup''
        then hidePopup a w1
      else if el_action a = Some ''clear_input''
        then clearInput a w1
      else w1)"
proof -
  have v1: "stepShape w (inputDigit a d w1)" for d
    by (rule stepShape_view[OF q]) simp
  have v2: "stepShape w (highlightAction a t w1)" for t
    by (rule stepShape_view[OF q]) simp
  have v3: "stepShape w (showPopup t w1)" for t
    by (rule stepShape_view[OF q]) simp
  have v4: "stepShape w (clearInput a w1)"
    by (rule stepShape_view[OF q]) simp
  have c: "stepShape w (case el_targets a of None \<Rightarrow> w1 | Some tgts \<Rightarrow> navigateConditional tgts w1)"
    by (simp add: stepShape_navigateConditional[OF inv q] stepShape_quiet[OF q] split: option.splits)
  show ?thesis
    by (simp only: stepShape_navigate[OF inv q] stepShape_hidePopup[OF inv q]
        stepShape_quiet[OF q] v1 v2 v3 v4 c if_True if_False split: if_splits)
       simp
qed

lemma stepShape_executeAction:
  assumes "timersTracked w"
  shows "stepShape w (executeAction a w)"
proof -
  have q: "quiet w (w\<lparr>console := console w @
        [LogExecuteAction (el_type a) (el_action a) (el_value a) (el_target a)]\<rparr>)"
    by (rule quiet_view) simp
  show ?thesis
    unfolding executeAction_def Let_def by (rule stepShape_branches[OF assms q])
qed

lemma stepShape_timerFires:
  assumes "timersTracked w"
  shows "stepShape w (timerFires h hh mm ss w)"
proof (cases "find (\<lambda>t. fst t = h) (timers w)")
  case None
  then show ?thesis by (simp add: timerFires_def stepShape_quiet quiet_refl)
next
  case (Some t)
  obtain h' delay task where t: "t = (h', delay, task)" by (cases t)
  show ?thesis
  proof (cases task)
    case (ScreenTimerTask elem)
    have "stepShape w (screenTimerFires elem (clearTimer h w))"
      unfolding screenTimerFires_def
      by (simp add: stepShape_navigate[OF assms quiet_clearTimer]
          stepShape_quiet[OF quiet_clearTimer])
    with Some t ScreenTimerTask show ?thesis by (simp add: timerFires_def)
  next
    case StartClocksTask
    have "quiet w (startClocks (clearTimer h w))"
      using quiet_clearTimer quiet_startClocks by (rule quiet_trans)
    with Some t StartClocksTask show ?thesis by (simp add: timerFires_def stepShape_quiet)
  next
    case (ClockTickTask elem)
    have "quiet w (clockTick elem hh mm ss w)" by (rule quiet_view) simp
    with Some t ClockTickTask show ?thesis by (simp add: timerFires_def stepShape_quiet)
  qed
qed

lemma stepShape_step:
  assumes "timersTracked w"
  shows "stepShape w (step e w)"
proof (cases e)
  case (EvSetConfig cfg)
  with setConfig_rearmed[OF assms] quiet_refl show ?thesis
    unfolding stepShape_def by auto
next
  case (EvNavigateToScreen s)
  with stepShape_navigate[OF assms quiet_refl] show ?thesis by simp
next
  case EvStartClocks
  with quiet_startClocks show ?thesis by (simp add: stepShape_quiet)
next
  case EvStopClocks
  with quiet_stopScreenTimers show ?thesis by (simp add: stepShape_quiet)
next
  case (EvExecuteAction a)
  with stepShape_executeAction[OF assms] show ?thesis by simp
next
  case EvClear
  with clear_rearmed[OF assms] quiet_refl show ?thesis
    unfolding stepShape_def by auto
next
  case (EvTimerFires h hh mm ss)
  with stepShape_timerFires[OF assms] show ?thesis by simp
qed (simp_all add: stepShape_quiet quiet_view)

lemma stepShape_timersTracked:
  assumes "timersTracked w" "stepShape w w'"
  shows "timersTracked w'"
  using assms quiet_timersTracked rearmed_timersTracked unfolding stepShape_def by blast

lemma stepShape_handlesFresh:
  assumes "stepShape w w'"
  shows "handlesFresh w w'"
proof -
  from assms consider "quiet w w'" | w1 where "quiet w w1" "rearmed w1 w'"
    unfolding stepShape_def by blast
  then show ?thesis
  proof cases
    case 1
    then show ?thesis by (rule quiet_handlesFresh)
  next
    case 2
    from rearmed_screenTimersDead[OF 2(2)] rearmed_nextTimerId[OF 2(2)]
    have "handlesFresh w1 w'" by (rule screenTimersDead_handlesFresh)
    with quiet_handlesFresh[OF 2(1)] show ?thesis by (rule handlesFresh_trans)
  qed
qed

lemma stepShape_navigation_dead:
  assumes "stepShape w w'" "navigations w' \<noteq> navigations w"
  shows "screenTimersDead w w'"
proof -
  from assms consider "quiet w w'" | w1 where "quiet w w1" "rearmed w1 w'"
    unfolding stepShape_def by blast
  then show ?thesis
  proof cases
    case 1
    with assms(2) show ?thesis by (simp add: quiet_def)
  next
    case 2
    from 2(1) rearmed_screenTimersDead[OF 2(2)] show ?thesis by (rule quiet_then_dead)
  qed
qed

lemma timersTracked_initial: "timersTracked initialWorld"
  by (simp add: timersTracked_def initialWorld_def)

lemma reachable_timersTracked: "reachable w \<Longrightarrow> timersTracked w"
proof (induction rule: reachable.induct)
  case reachable_initial
  show ?case by (rule timersTracked_initial)
next
  case (reachable_step w e)
  from stepShape_timersTracked[OF reachable_step.IH stepShape_step[OF reachable_step.IH]]
  show ?case .
qed

lemma run_handlesFresh:
  assumes "timersTracked w"
  shows "handlesFresh w (run es w)"
  using assms
proof (induction es arbitrary: w)
  case Nil
  then show ?case by (simp add: run_def handlesFresh_def)
next
  case (Cons e es)
  from stepShape_step[OF Cons.prems] have s: "stepShape w (step e w)" .
  from stepShape_timersTracked[OF Cons.prems s] have "timersTracked (step e w)" .
  from Cons.IH[OF this] have "handlesFresh (step e w) (run es (step e w))" .
  with stepShape_handlesFresh[OF s] have "handlesFresh w (run es (step e w))"
    by (rule handlesFresh_trans)
  then show ?case by (simp add: run_def)
qed

lemma timerFires_not_pending:
  "h \<notin> pendingHandles w \<Longrightarrow> timerFires h hh mm ss w = w"
proof -
  assume "h \<notin> pendingHandles w"
  then have "\<not> (\<exists>t. t \<in> set (timers w) \<and> fst t = h)"
    unfolding pendingHandles_def by force
  then have "find (\<lambda>t. fst t = h) (timers w) = None"
    using find_None_iff[of "\<lambda>t. fst t = h" "timers w"] by blast
  then show ?thesis by (simp add: timerFires_def)
qed

text \<open>
  C6. In every world reachable from the initial one by calls into the stores and firing
  timers, the pending screen timers are tracked in \<open>screenTimerIds\<close> and were armed for
  the current screen (their \<^verbatim>\<open>triggerOn\<close> holds it). Whenever a step performs a navigation
  (it writes the console line of \<^verbatim>\<open>navigateToScreen\<close>), no screen timer that was pending
  before the step is pending at any later time, whatever events follow, so its callback
  cannot run: firing its handle changes nothing. The step may be the firing of the timer
  itself, whose navigate action cancels all the others.
\<close>

theorem screen_timers_cancelled_on_navigation:
  assumes "reachable w"
  shows "timersTracked w
    \<and> (\<forall>e es h hh mm ss.
          h \<in> screenTimerHandles w \<and> navigations (step e w) \<noteq> navigations w \<longrightarrow>
            h \<notin> pendingHandles (run es (step e w))
            \<and> timerFires h hh mm ss (run es (step e w)) = run es (step e w))"
proof -
  from assms have inv: "timersTracked w" by (rule reachable_timersTracked)
  have dead: "h \<notin> pendingHandles (run es (step e w))"
    if h: "h \<in> screenTimerHandles w" and nav: "navigations (step e w) \<noteq> navigations w"
    for e es h
  proof
    assume "h \<in> pendingHandles (run es (step e w))"
    then obtain t where t: "t \<in> set (timers (run es (step e w)))" "fst t = h"
      unfolding pendingHandles_def by auto
    from h obtain t0 where t0: "t0 \<in> set (timers w)" "isScreenTimer t0" "fst t0 = h"
      unfolding screenTimerHandles_def by auto
    from inv have d: "distinct (map fst (timers w))"
      and b: "\<forall>t \<in> set (timers w). fst t < nextTimerId w"
      unfolding timersTracked_def by blast+
    from b t0 have lt: "h < nextTimerId w" by auto
    from stepShape_step[OF inv] have s: "stepShape w (step e w)" .
    from stepShape_navigation_dead[OF s nav] have k: "screenTimersDead w (step e w)" .
    from stepShape_handlesFresh[OF s] have f1: "handlesFresh w (step e w)" .
    from run_handlesFresh[OF stepShape_timersTracked[OF inv s]]
    have f2: "handlesFresh (step e w) (run es (step e w))" .
    from f2 t f1 lt have "t \<in> set (timers (step e w))"
      unfolding handlesFresh_def by fastforce
    with k lt t(2) have "t \<in> set (timers w)" "\<not> isScreenTimer t"
      unfolding screenTimersDead_def by fastforce+
    with d t0 t(2) have "t = t0"
      by (metis distinct_map inj_onD)
    with \<open>\<not> isScreenTimer t\<close> t0(2) show False by simp
  qed
  from inv dead timerFires_not_pending show ?thesis by blast
qed

lemma sample_armed:
  "armedTimers sampleConfig ''a'' = [timerToB]" "armedTimers sampleConfig ''b'' = [timerToA]"
  "filter (\<lambda>e. el_type e = ''clock'') (elements sampleConfig) = []"
  by (simp_all add: armedTimers_def sample_defs triggersOn_def)

lemma sample_setConfig_timers:
  "timers (setConfig sampleConfig initialWorld) = [(1, 3000, ScreenTimerTask timerToB)]"
proof -
  have i: "initialScreen sampleConfig = ''a''" by (simp add: sampleConfig_def)
  have d: "timerDelay timerToB = 3000" by (simp add: timerDelay_def timerToB_def)
  show ?thesis
    by (simp add: setConfig_timerView i sample_armed newScreenTimers_def initialWorld_def d)
qed

theorem screen_timers_cancelled_on_navigation_witness:
  "reachable (setConfig sampleConfig initialWorld)
   \<and> 1 \<in> screenTimerHandles (setConfig sampleConfig initialWorld)
   \<and> navigations (step (EvTimerFires 1 0 0 0) (setConfig sampleConfig initialWorld))
       \<noteq> navigations (setConfig sampleConfig initialWorld)
   \<and> 1 \<notin> pendingHandles (run [EvNavigateToScreen ''a'']
           (step (EvTimerFires 1 0 0 0) (setConfig sampleConfig initialWorld)))
   \<and> timerFires 1 0 0 0 (run [EvNavigateToScreen ''a'']
           (step (EvTimerFires 1 0 0 0) (setConfig sampleConfig initialWorld)))
       = run [EvNavigateToScreen ''a'']
           (step (EvTimerFires 1 0 0 0) (setConfig sampleConfig initialWorld))"
proof -
  let ?W = "setConfig sampleConfig initialWorld"
  have r: "reachable ?W"
    using reachable_step[OF reachable_initial, of "EvSetConfig sampleConfig"] by simp
  have h: "1 \<in> screenTimerHandles ?W"
    by (force simp: screenTimerHandles_def sample_setConfig_timers)
  have c: "config (clearTimer 1 ?W) = Some sampleConfig"
    by (simp add: clearTimer_def setConfig_config)
  have fire: "step (EvTimerFires 1 0 0 0) ?W = navigateToScreen ''b'' (clearTimer 1 ?W)"
    by (simp add: timerFires_def sample_setConfig_timers screenTimerFires_def timerToB_def
        newElement_def truthy_def orElse_def)
  have n1: "navigations (navigateToScreen ''b'' (clearTimer 1 ?W)) = Suc (navigations (clearTimer 1 ?W))"
    by (rule navigateToScreen_navigations[OF c])
  have n2: "navigations (clearTimer 1 ?W) = navigations ?W"
    by (simp add: navigations_def clearTimer_def)
  have n: "navigations (step (EvTimerFires 1 0 0 0) ?W) \<noteq> navigations ?W"
    unfolding fire n1 n2 by simp
  from screen_timers_cancelled_on_navigation [OF r] h n
  have "1 \<notin> pendingHandles (run [EvNavigateToScreen ''a''] (step (EvTimerFires 1 0 0 0) ?W))
      \<and> timerFires 1 0 0 0 (run [EvNavigateToScreen ''a''] (step (EvTimerFires 1 0 0 0) ?W))
          = run [EvNavigateToScreen ''a''] (step (EvTimerFires 1 0 0 0) ?W)"
    by blast
  with r h n show ?thesis by blast
qed

subsection \<open>Configuration carried by a response\<close>




lemma lazyBody_shortest:
  "lazyBody s = Some b \<Longrightarrow> i < length b \<Longrightarrow> \<not> startsWith closeFence (drop i s)"
proof (induction s arbitrary: b i)
  case Nil
  thus ?case by simp
next
  case (Cons c cs)
  show ?case
  proof (cases "startsWith closeFence (c # cs)")
    case True
    with Cons.prems show ?thesis by simp
  next
    case False
    with Cons.prems obtain b' where b': "lazyBody cs = Some b'" "b = c # b'" by auto
    show ?thesis
    proof (cases i)
      case 0
      with False show ?thesis by simp
    next
      case (Suc j)
      with Cons.prems(2) b'(2) have "j < length b'" by simp
      from Cons.IH[OF b'(1) this] Suc show ?thesis by simp
    qed
  qed
qed




















end
